theory Spec2Isabelle
  imports Main
begin

section \<open>JavaScript values\<close>

text \<open>
  The values the registry handles: what \<open>JSON.parse\<close> returns, what callers pass to the
  validators, and the plain objects \<open>Person.toJSON\<close> builds (which hold \<open>Date\<close> objects).
  Strings are HOL strings, one \<open>char\<close> per UTF-16 code unit of the range U+0000..U+00FF.
  Numbers are the integers (fractions, infinities and NaN are not part of the model; a NaN
  that the code can compute is an \<open>option\<close> with \<open>None\<close>). A \<open>Date\<close> holds its time value
  in milliseconds, \<open>None\<close> for an invalid date. An object is the list of its own
  properties in insertion order; the objects of the registry have pairwise different keys,
  none of them an array index, so that this is also the order of enumeration.
\<close>

datatype jsval =
    JUndefined
  | JNull
  | JBool bool
  | JNum int
  | JStr string
  | JDate "int option"
  | JArr "jsval list"
  | JObj "(string \<times> jsval) list"

text \<open>\<open>ToBoolean\<close>: what \<open>!v\<close>, \<open>v ? a : b\<close> and \<open>v || w\<close> test.\<close>

fun truthy :: "jsval \<Rightarrow> bool" where
  "truthy JUndefined = False"
| "truthy JNull = False"
| "truthy (JBool b) = b"
| "truthy (JNum n) = (n \<noteq> 0)"
| "truthy (JStr s) = (s \<noteq> [])"
| "truthy (JDate t) = True"
| "truthy (JArr xs) = True"
| "truthy (JObj ps) = True"

text \<open>\<open>typeof v === "string"\<close>.\<close>

fun isString :: "jsval \<Rightarrow> bool" where
  "isString (JStr s) = True"
| "isString v = False"

section \<open>Strings\<close>

definition isDigit :: "char \<Rightarrow> bool" where
  "isDigit c = (c \<in> set ''0123456789'')"

definition digitValue :: "char \<Rightarrow> int" where
  "digitValue c = of_char c - 48"

text \<open>
  \<open>parseInt(s, 10)\<close> on a string that starts with its digits (every call in the
  registry passes a run of digits): the value of the leading digits, \<open>None\<close> (NaN) when
  there is none.
\<close>

definition parseInt :: "string \<Rightarrow> int option" where
  "parseInt s =
     (let ds = takeWhile isDigit s
      in if ds = [] then None else Some (foldl (\<lambda>a c. 10 * a + digitValue c) 0 ds))"

text \<open>\<open>s.split(c)\<close>: the fields between the occurrences of \<open>c\<close>.\<close>

fun splitOn :: "char \<Rightarrow> string \<Rightarrow> string list" where
  "splitOn c [] = [[]]"
| "splitOn c (x # xs) =
     (if x = c then [] # splitOn c xs
      else (case splitOn c xs of
              [] \<Rightarrow> [[x]]
            | w # ws \<Rightarrow> (x # w) # ws))"

text \<open>
  The character classes of the regular expressions, on the code units of the model:
  \<open>\s\<close> (white space and line ends, which is also what \<open>trim\<close> removes) and \<open>\p{L}\<close>
  (letters: the basic Latin ones, and in U+00A0..U+00FF the ordinal indicators, the micro
  sign and the accented letters).
\<close>

definition isSpace :: "char \<Rightarrow> bool" where
  "isSpace c = (let n = (of_char c :: int) in (9 \<le> n \<and> n \<le> 13) \<or> n = 32 \<or> n = 160)"

definition isLetter :: "char \<Rightarrow> bool" where
  "isLetter c =
     (let n = (of_char c :: int)
      in (65 \<le> n \<and> n \<le> 90) \<or> (97 \<le> n \<and> n \<le> 122) \<or> n = 170 \<or> n = 181 \<or> n = 186
         \<or> (192 \<le> n \<and> n \<le> 214) \<or> (216 \<le> n \<and> n \<le> 246) \<or> 248 \<le> n)"

definition trim :: "string \<Rightarrow> string" where
  "trim s = rev (dropWhile isSpace (rev (dropWhile isSpace s)))"

text \<open>
  \<open>toUpperCase\<close> and \<open>toLowerCase\<close>. The sharp s becomes \<open>SS\<close>. The capitals of the micro
  sign (U+00B5) and of y with diaeresis (U+00FF) lie beyond U+00FF, so the model leaves
  these two characters as they are.
\<close>

definition upperChar :: "char \<Rightarrow> string" where
  "upperChar c =
     (let n = (of_char c :: int)
      in if (97 \<le> n \<and> n \<le> 122) \<or> (224 \<le> n \<and> n \<le> 246) \<or> (248 \<le> n \<and> n \<le> 254)
         then [char_of (n - 32)]
         else if n = 223 then ''SS''
         else [c])"

definition toUpperCase :: "string \<Rightarrow> string" where
  "toUpperCase s = concat (map upperChar s)"





section \<open>Dates\<close>

text \<open>
  A \<open>Date\<close> is its time value: milliseconds since the epoch. The day arithmetic is
  ECMAScript's (\<open>DaysInYear\<close>, \<open>DayFromYear\<close>, \<open>YearFromTime\<close>, \<open>MonthFromTime\<close>,
  \<open>DateFromTime\<close>, \<open>MakeDay\<close>). Local time is taken at a fixed offset of zero: daylight
  saving and time zones are outside the model.
\<close>

definition msPerDay :: int where
  "msPerDay = 86400000"

definition daysInYear :: "int \<Rightarrow> int" where
  "daysInYear y =
     (if y mod 4 \<noteq> 0 then 365
      else if y mod 100 \<noteq> 0 then 366
      else if y mod 400 \<noteq> 0 then 365
      else 366)"

definition dayFromYear :: "int \<Rightarrow> int" where
  "dayFromYear y =
     365 * (y - 1970) + (y - 1969) div 4 - (y - 1901) div 100 + (y - 1601) div 400"

text \<open>A year's first day and its length give the next year's first day.\<close>

lemma div_step:
  fixes a k :: int
  assumes k: "0 < k"
  shows "(a + 1) div k = a div k + (if (a + 1) mod k = 0 then 1 else 0)"
proof -
  have r: "0 \<le> a mod k" "a mod k < k" using k by simp_all
  have a: "a = k * (a div k) + a mod k" by simp
  show ?thesis
  proof (cases "a mod k + 1 = k")
    case True
    have e: "a + 1 = k * (a div k + 1) + 0"
      using a True by (metis add.assoc add.right_neutral distrib_left mult.right_neutral)
    have "(a + 1) div k = a div k + 1" using k by (intro int_div_pos_eq [OF e]) simp_all
    moreover have "(a + 1) mod k = 0" using k by (intro int_mod_pos_eq [OF e]) simp_all
    ultimately show ?thesis by simp
  next
    case False
    with r have lt: "a mod k + 1 < k" by simp
    have e: "a + 1 = k * (a div k) + (a mod k + 1)" using a by simp
    have "(a + 1) div k = a div k" using r lt by (intro int_div_pos_eq [OF e]) simp_all
    moreover have "(a + 1) mod k = a mod k + 1"
      using r lt by (intro int_mod_pos_eq [OF e]) simp_all
    ultimately show ?thesis using r by simp
  qed
qed

lemma shift_mod: "(y - c * k) mod k = y mod k" for y :: int
  by (metis mod_mult_self1 diff_conv_add_uminus mult.commute mult_minus_left)

lemma dayFromYear_succ: "dayFromYear (y + 1) = dayFromYear y + daysInYear y"
proof -
  have s4: "(y - 1968) div 4 = (y - 1969) div 4 + (if y mod 4 = 0 then 1 else 0)"
    using div_step [of 4 "y - 1969"] shift_mod [of y 492 4] by simp
  have s100: "(y - 1900) div 100 = (y - 1901) div 100 + (if y mod 100 = 0 then 1 else 0)"
    using div_step [of 100 "y - 1901"] shift_mod [of y 19 100] by simp
  have s400: "(y - 1600) div 400 = (y - 1601) div 400 + (if y mod 400 = 0 then 1 else 0)"
    using div_step [of 400 "y - 1601"] shift_mod [of y 4 400] by simp
  have m100: "y mod 100 = 0 \<Longrightarrow> y mod 4 = 0"
    using mod_mod_cancel [of 4 100 y] by simp
  have m400: "y mod 400 = 0 \<Longrightarrow> y mod 100 = 0"
    using mod_mod_cancel [of 100 400 y] by simp
  have "dayFromYear (y + 1) =
          365 * (y - 1969) + (y - 1968) div 4 - (y - 1900) div 100 + (y - 1600) div 400"
    by (simp add: dayFromYear_def)
  also have "\<dots> = dayFromYear y + 365 + (if y mod 4 = 0 then 1 else 0)
                    - (if y mod 100 = 0 then 1 else 0) + (if y mod 400 = 0 then 1 else 0)"
    unfolding s4 s100 s400 dayFromYear_def by simp
  also have "\<dots> = dayFromYear y + daysInYear y"
    using m100 m400 by (auto simp: daysInYear_def)
  finally show ?thesis .
qed

text \<open>
  \<open>YearFromTime\<close> is the largest year that starts on or before the day. The search
  climbs from a year that starts early enough.
\<close>

function yearUpFrom :: "int \<Rightarrow> int \<Rightarrow> int" where
  "yearUpFrom y d = (if dayFromYear (y + 1) \<le> d then yearUpFrom (y + 1) d else y)"
  by pat_completeness auto
termination
proof (relation "measure (\<lambda>(y, d). nat (d + 1 - dayFromYear (y + 1)))")
  show "wf (measure (\<lambda>(y, d). nat (d + 1 - dayFromYear (y + 1))))" by simp
next
  fix y d :: int
  assume "dayFromYear (y + 1) \<le> d"
  moreover have "dayFromYear (y + 1 + 1) = dayFromYear (y + 1) + daysInYear (y + 1)"
    by (rule dayFromYear_succ)
  moreover have "0 < daysInYear (y + 1)" by (simp add: daysInYear_def)
  ultimately show "((y + 1, d), (y, d)) \<in> measure (\<lambda>(y, d). nat (d + 1 - dayFromYear (y + 1)))"
    by simp
qed

definition yearFromDay :: "int \<Rightarrow> int" where
  "yearFromDay d = yearUpFrom (1970 + (if 0 \<le> d then d div 366 else d div 365)) d"

definition inLeapYear :: "int \<Rightarrow> int" where
  "inLeapYear d = (if daysInYear (yearFromDay d) = 366 then 1 else 0)"

definition dayWithinYear :: "int \<Rightarrow> int" where
  "dayWithinYear d = d - dayFromYear (yearFromDay d)"

definition monthFromDay :: "int \<Rightarrow> int" where
  "monthFromDay d =
     (let n = dayWithinYear d; l = inLeapYear d
      in if n < 31 then 0
         else if n < 59 + l then 1
         else if n < 90 + l then 2
         else if n < 120 + l then 3
         else if n < 151 + l then 4
         else if n < 181 + l then 5
         else if n < 212 + l then 6
         else if n < 243 + l then 7
         else if n < 273 + l then 8
         else if n < 304 + l then 9
         else if n < 334 + l then 10
         else 11)"

definition dateFromDay :: "int \<Rightarrow> int" where
  "dateFromDay d =
     (let n = dayWithinYear d; l = inLeapYear d; m = monthFromDay d
      in if m = 0 then n + 1
         else if m = 1 then n - 30
         else if m = 2 then n - 58 - l
         else if m = 3 then n - 89 - l
         else if m = 4 then n - 119 - l
         else if m = 5 then n - 150 - l
         else if m = 6 then n - 180 - l
         else if m = 7 then n - 211 - l
         else if m = 8 then n - 242 - l
         else if m = 9 then n - 272 - l
         else if m = 10 then n - 303 - l
         else n - 333 - l)"

text \<open>The days of year \<open>y\<close> that lie before its month \<open>m\<close> (0 for January).\<close>

definition daysBeforeMonth :: "int \<Rightarrow> int \<Rightarrow> int" where
  "daysBeforeMonth y m =
     (let l = (if daysInYear y = 366 then 1 else 0)
      in if m = 0 then 0
         else if m = 1 then 31
         else if m = 2 then 59 + l
         else if m = 3 then 90 + l
         else if m = 4 then 120 + l
         else if m = 5 then 151 + l
         else if m = 6 then 181 + l
         else if m = 7 then 212 + l
         else if m = 8 then 243 + l
         else if m = 9 then 273 + l
         else if m = 10 then 304 + l
         else 334 + l)"

text \<open>\<open>MakeDay\<close>: months and days out of range carry over.\<close>

definition makeDay :: "int \<Rightarrow> int \<Rightarrow> int \<Rightarrow> int" where
  "makeDay year month date =
     (let ym = year + month div 12; mn = month mod 12
      in dayFromYear ym + daysBeforeMonth ym mn + date - 1)"

text \<open>
  \<open>new Date(year, monthIndex, day)\<close>: local midnight of that day, a year from 0 to 99
  counting from 1900.
\<close>

definition newDateYMD :: "int \<Rightarrow> int \<Rightarrow> int \<Rightarrow> int" where
  "newDateYMD year month day =
     (let yr = (if 0 \<le> year \<and> year \<le> 99 then 1900 + year else year)
      in makeDay yr month day * msPerDay)"

definition getFullYear :: "int \<Rightarrow> int" where
  "getFullYear t = yearFromDay (t div msPerDay)"

definition getMonth :: "int \<Rightarrow> int" where
  "getMonth t = monthFromDay (t div msPerDay)"

definition getDate :: "int \<Rightarrow> int" where
  "getDate t = dateFromDay (t div msPerDay)"

section \<open>Field validators\<close>

text \<open>
  \<open>Person.validatePhone\<close>. A comparison with NaN is false in JavaScript, so an area code
  that did not parse would pass the range test; the digits are there whenever the length
  test has passed.
\<close>

definition validatePhone :: "jsval \<Rightarrow> bool" where
  "validatePhone phone =
     (if \<not> truthy phone \<or> \<not> isString phone then False
      else case phone of
        JStr p \<Rightarrow>
          (let cleanPhone = filter isDigit p
           in if length cleanPhone \<noteq> 10 \<and> length cleanPhone \<noteq> 11 then False
              else (case parseInt (take 2 cleanPhone) of
                      None \<Rightarrow> True
                    | Some areaCode \<Rightarrow> if areaCode < 11 \<or> areaCode > 99 then False else True))
      | _ \<Rightarrow> False)"

text \<open>
  \<open>Person.validateName\<close>, with the expression \<open>/^[\p{L}\s\-']+$/u\<close> on the trimmed name.
\<close>

definition nameRegex :: "string \<Rightarrow> bool" where
  "nameRegex s =
     (s \<noteq> [] \<and> list_all (\<lambda>c. isLetter c \<or> isSpace c \<or> c = CHR ''-'' \<or> c = CHR 0x27) s)"

definition validateName :: "jsval \<Rightarrow> bool" where
  "validateName name =
     (if \<not> truthy name \<or> \<not> isString name then False
      else case name of
        JStr n \<Rightarrow>
          (let trimmedName = trim n
           in if length trimmedName < 2 \<or> length trimmedName > 50 then False
              else nameRegex trimmedName)
      | _ \<Rightarrow> False)"

text \<open>
  \<open>Person.validateEmail\<close>, with the expression \<open>/^[^\s@]+@[^\s@]+\.[^\s@]+$/\<close> on the
  trimmed address: one \<open>@\<close>, no white space, something before the \<open>@\<close>, and after it a
  dot that is neither the first nor the last character.
\<close>

definition emailRegex :: "string \<Rightarrow> bool" where
  "emailRegex s =
     (case splitOn CHR ''@'' s of
        [l, r] \<Rightarrow> l \<noteq> [] \<and> \<not> list_ex isSpace s \<and> CHR ''.'' \<in> set (butlast (tl r))
      | _ \<Rightarrow> False)"

definition validateEmail :: "jsval \<Rightarrow> bool" where
  "validateEmail email =
     (if \<not> truthy email \<or> \<not> isString email then False
      else case email of
        JStr e \<Rightarrow> emailRegex (trim e)
      | _ \<Rightarrow> False)"

text \<open>
  \<open>Person.parseBrazilianDate\<close>. The expression \<open>/^(\d{1,2})\/(\d{1,2})\/(\d{4})$/\<close> matches
  a string that splits at its slashes into exactly three runs of digits, of one or two, one
  or two, and four digits. The result is the \<open>Date\<close>, or \<open>None\<close> for \<open>null\<close>.
\<close>

definition isDigits :: "string \<Rightarrow> bool" where
  "isDigits s = list_all isDigit s"

definition dateRegex :: "string \<Rightarrow> (string \<times> string \<times> string) option" where
  "dateRegex s =
     (case splitOn CHR ''/'' s of
        [a, b, c] \<Rightarrow>
          if isDigits a \<and> 1 \<le> length a \<and> length a \<le> 2
             \<and> isDigits b \<and> 1 \<le> length b \<and> length b \<le> 2
             \<and> isDigits c \<and> length c = 4
          then Some (a, b, c) else None
      | _ \<Rightarrow> None)"

definition parseBrazilianDate :: "jsval \<Rightarrow> int option" where
  "parseBrazilianDate dateString =
     (if \<not> truthy dateString \<or> \<not> isString dateString then None
      else case dateString of
        JStr s \<Rightarrow>
          (let cleanDate = filter (\<lambda>c. isDigit c \<or> c = CHR ''/'') s
           in case dateRegex cleanDate of
                None \<Rightarrow> None
              | Some (m1, m2, m3) \<Rightarrow>
                  (case (parseInt m1, parseInt m2, parseInt m3) of
                     (Some day, Some month, Some year) \<Rightarrow>
                       if day < 1 \<or> day > 31 then None
                       else if month < 1 \<or> month > 12 then None
                       else if year < 1900 \<or> year > 2100 then None
                       else (let date = newDateYMD year (month - 1) day
                             in if getDate date \<noteq> day \<or> getMonth date \<noteq> month - 1
                                   \<or> getFullYear date \<noteq> year
                                then None
                                else Some date)
                   | _ \<Rightarrow> None))
      | _ \<Rightarrow> None)"

text \<open>
  \<open>Person.validateBirthDate\<close>. \<open>today\<close> is the reading of the clock that \<open>new Date()\<close>
  takes.
\<close>

definition validateBirthDate :: "int \<Rightarrow> jsval \<Rightarrow> bool" where
  "validateBirthDate today date =
     (if \<not> truthy date then False
      else case parseBrazilianDate date of
        None \<Rightarrow> False
      | Some birthDate \<Rightarrow>
          if birthDate > today then False
          else (let age = getFullYear today - getFullYear birthDate
                in if age > 120 then False else True))"

section \<open>Printing numbers and dates\<close>

text \<open>\<open>Number.prototype.toString(radix)\<close> on an integer.\<close>

definition digitChar :: "int \<Rightarrow> char" where
  "digitChar k = ''0123456789abcdefghijklmnopqrstuvwxyz'' ! nat k"

text \<open>The digits of \<open>n\<close> (not negative) in base \<open>b\<close>.\<close>

function natToString :: "int \<Rightarrow> int \<Rightarrow> string" where
  "natToString b n =
     (if b < 2 \<or> n < b then [digitChar n]
      else natToString b (n div b) @ [digitChar (n mod b)])"
  by pat_completeness auto
termination
proof (relation "measure (\<lambda>(b, n). nat n)")
  show "wf (measure (\<lambda>(b, n). nat n))" by simp
next
  fix b n :: int
  assume a: "\<not> (b < 2 \<or> n < b)"
  then have "n div b < n" by (simp add: int_div_less_self)
  moreover from a have "0 < n" by simp
  ultimately show "((b, n div b), (b, n)) \<in> measure (\<lambda>(b, n). nat n)" by simp
qed

definition intToString :: "int \<Rightarrow> int \<Rightarrow> string" where
  "intToString b i = (if i < 0 then CHR ''-'' # natToString b (- i) else natToString b i)"

definition padStart :: "nat \<Rightarrow> string \<Rightarrow> string" where
  "padStart n s = replicate (n - length s) CHR ''0'' @ s"

text \<open>
  \<open>Date.prototype.toISOString\<close> on a valid date: \<open>YYYY-MM-DDTHH:mm:ss.sssZ\<close>, the year
  with a sign and six digits outside 0..9999.
\<close>

definition toISOString :: "int \<Rightarrow> string" where
  "toISOString t =
     (let day = t div msPerDay;
          ms = t mod msPerDay;
          y = yearFromDay day;
          year = (if 0 \<le> y \<and> y \<le> 9999 then padStart 4 (intToString 10 y)
                  else (if y < 0 then CHR ''-'' else CHR ''+'') # padStart 6 (intToString 10 \<bar>y\<bar>))
      in year @ ''-'' @ padStart 2 (intToString 10 (monthFromDay day + 1))
           @ ''-'' @ padStart 2 (intToString 10 (dateFromDay day))
           @ ''T'' @ padStart 2 (intToString 10 (ms div 3600000))
           @ '':'' @ padStart 2 (intToString 10 (ms div 60000 mod 60))
           @ '':'' @ padStart 2 (intToString 10 (ms div 1000 mod 60))
           @ ''.'' @ padStart 3 (intToString 10 (ms mod 1000)) @ ''Z'')"

text \<open>
  \<open>Date.parse\<close> on the format that \<open>toISOString\<close> writes with a four-digit year. Browsers
  read other spellings each in its own way; the model takes them as invalid (\<open>None\<close>).
\<close>

definition digitsAt :: "string \<Rightarrow> nat \<Rightarrow> nat \<Rightarrow> int option" where
  "digitsAt s i n =
     (let ds = take n (drop i s)
      in if length ds = n \<and> isDigits ds then parseInt ds else None)"

definition dateParse :: "string \<Rightarrow> int option" where
  "dateParse s =
     (if length s = 24 \<and> s ! 4 = CHR ''-'' \<and> s ! 7 = CHR ''-'' \<and> s ! 10 = CHR ''T''
         \<and> s ! 13 = CHR '':'' \<and> s ! 16 = CHR '':'' \<and> s ! 19 = CHR ''.'' \<and> s ! 23 = CHR ''Z''
      then (case (digitsAt s 0 4, digitsAt s 5 2, digitsAt s 8 2, digitsAt s 11 2,
                  digitsAt s 14 2, digitsAt s 17 2, digitsAt s 20 3) of
              (Some y, Some mo, Some d, Some h, Some mi, Some sec, Some ms) \<Rightarrow>
                if 1 \<le> mo \<and> mo \<le> 12 \<and> 1 \<le> d
                   \<and> makeDay y mo 1 - makeDay y (mo - 1) 1 \<ge> d
                   \<and> h \<le> 23 \<and> mi \<le> 59 \<and> sec \<le> 59
                then Some (makeDay y (mo - 1) d * msPerDay
                           + h * 3600000 + mi * 60000 + sec * 1000 + ms)
                else None
            | _ \<Rightarrow> None)
      else None)"

section \<open>JSON\<close>

text \<open>\<open>QuoteJSONString\<close>: the escapes of \<open>JSON.stringify\<close>.\<close>

definition hex4 :: "int \<Rightarrow> string" where
  "hex4 n = padStart 4 (natToString 16 n)"

definition quoteChar :: "char \<Rightarrow> string" where
  "quoteChar c =
     (let n = (of_char c :: int)
      in if c = CHR 0x22 then [CHR 0x5C, CHR 0x22]
         else if c = CHR 0x5C then [CHR 0x5C, CHR 0x5C]
         else if n = 8 then [CHR 0x5C, CHR ''b'']
         else if n = 12 then [CHR 0x5C, CHR ''f'']
         else if n = 10 then [CHR 0x5C, CHR ''n'']
         else if n = 13 then [CHR 0x5C, CHR ''r'']
         else if n = 9 then [CHR 0x5C, CHR ''t'']
         else if n < 32 then [CHR 0x5C, CHR ''u''] @ hex4 n
         else [c])"

definition quoteJSONString :: "string \<Rightarrow> string" where
  "quoteJSONString s = [CHR 0x22] @ concat (map quoteChar s) @ [CHR 0x22]"

fun joinWith :: "string \<Rightarrow> string list \<Rightarrow> string" where
  "joinWith sep [] = []"
| "joinWith sep [x] = x"
| "joinWith sep (x # y # ys) = x @ sep @ joinWith sep (y # ys)"

text \<open>
  \<open>JSON.stringify(v)\<close>; \<open>None\<close> is the result \<open>undefined\<close>. A \<open>Date\<close> is written through
  its \<open>toJSON\<close>: the ISO string, or \<open>null\<close> when the date is invalid. In an array
  \<open>undefined\<close> is written \<open>null\<close>; in an object a property that is \<open>undefined\<close> is left
  out.
\<close>

fun stringify :: "jsval \<Rightarrow> string option" where
  "stringify JUndefined = None"
| "stringify JNull = Some ''null''"
| "stringify (JBool b) = Some (if b then ''true'' else ''false'')"
| "stringify (JNum n) = Some (intToString 10 n)"
| "stringify (JStr s) = Some (quoteJSONString s)"
| "stringify (JDate None) = Some ''null''"
| "stringify (JDate (Some t)) = Some (quoteJSONString (toISOString t))"
| "stringify (JArr xs) =
     Some (''['' @ joinWith '','' (map (\<lambda>x. case stringify x of None \<Rightarrow> ''null'' | Some t \<Rightarrow> t) xs)
           @ '']'')"
| "stringify (JObj ps) =
     Some (''{'' @ joinWith '',''
              (concat (map (\<lambda>p. case stringify (snd p) of
                                   None \<Rightarrow> []
                                 | Some t \<Rightarrow> [quoteJSONString (fst p) @ '':'' @ t]) ps))
           @ ''}'')"

text \<open>
  \<open>JSON.parse(JSON.stringify(v))\<close> for a \<open>v\<close> that is not \<open>undefined\<close>: the document that
  the text of \<open>v\<close> denotes.
\<close>

fun jsonClone :: "jsval \<Rightarrow> jsval" where
  "jsonClone (JDate None) = JNull"
| "jsonClone (JDate (Some t)) = JStr (toISOString t)"
| "jsonClone (JArr xs) = JArr (map (\<lambda>x. if x = JUndefined then JNull else jsonClone x) xs)"
| "jsonClone (JObj ps) =
     JObj (concat (map (\<lambda>p. if snd p = JUndefined then [] else [(fst p, jsonClone (snd p))]) ps))"
| "jsonClone v = v"

text \<open>A value that \<open>JSON.parse\<close> can return: no \<open>undefined\<close> and no \<open>Date\<close> in it.\<close>

fun isJSON :: "jsval \<Rightarrow> bool" where
  "isJSON JUndefined = False"
| "isJSON (JDate t) = False"
| "isJSON (JArr xs) = list_all isJSON xs"
| "isJSON (JObj ps) = list_all (\<lambda>p. isJSON (snd p)) ps"
| "isJSON v = True"

section \<open>Operators on values\<close>

text \<open>
  \<open>a === b\<close>. Two objects (arrays, dates, plain objects) are identical only when they are
  one object; the model has no object identity and answers false for them. The registry
  compares strings and numbers.
\<close>

fun strictEq :: "jsval \<Rightarrow> jsval \<Rightarrow> bool" where
  "strictEq JUndefined JUndefined = True"
| "strictEq JNull JNull = True"
| "strictEq (JBool a) (JBool b) = (a = b)"
| "strictEq (JNum a) (JNum b) = (a = b)"
| "strictEq (JStr a) (JStr b) = (a = b)"
| "strictEq a b = False"

datatype native = TypeError | SyntaxError | QuotaExceededError

text \<open>
  \<open>v.name\<close> for the property names the registry reads: \<open>TypeError\<close> on \<open>null\<close> and
  \<open>undefined\<close>, the own property of an object, the \<open>length\<close> of an array or string, and
  \<open>undefined\<close> otherwise.
\<close>

fun getProp :: "jsval \<Rightarrow> string \<Rightarrow> native + jsval" where
  "getProp JUndefined k = Inl TypeError"
| "getProp JNull k = Inl TypeError"
| "getProp (JObj ps) k = Inr (case map_of ps k of None \<Rightarrow> JUndefined | Some v \<Rightarrow> v)"
| "getProp (JArr xs) k = Inr (if k = ''length'' then JNum (int (length xs)) else JUndefined)"
| "getProp (JStr s) k = Inr (if k = ''length'' then JNum (int (length s)) else JUndefined)"
| "getProp v k = Inr JUndefined"

text \<open>\<open>v[0]\<close>.\<close>

fun index0 :: "jsval \<Rightarrow> native + jsval" where
  "index0 JUndefined = Inl TypeError"
| "index0 JNull = Inl TypeError"
| "index0 (JArr xs) = Inr (case xs of [] \<Rightarrow> JUndefined | x # _ \<Rightarrow> x)"
| "index0 (JStr s) = Inr (case s of [] \<Rightarrow> JUndefined | c # _ \<Rightarrow> JStr [c])"
| "index0 (JObj ps) = Inr (case map_of ps ''0'' of None \<Rightarrow> JUndefined | Some v \<Rightarrow> v)"
| "index0 v = Inr JUndefined"

section \<open>Errors\<close>

datatype ErrorTypes =
    VALIDATION_ERROR
  | STORAGE_ERROR
  | STORAGE_QUOTA_ERROR
  | DUPLICATE_ERROR
  | THEME_ERROR
  | NETWORK_ERROR
  | UNKNOWN_ERROR

datatype field = F_nome | F_dataNascimento | F_telefone | F_email

text \<open>
  What is wrong with an imported entry: \<open>NotAnArray\<close> is "Dados devem ser um array", and
  \<open>RecordIssue n f\<close> is "Registro n: ... invalido" for the field \<open>f\<close>.
\<close>

datatype importIssue = NotAnArray | RecordIssue nat field

text \<open>
  The messages of the registry's errors, one constructor for each text of the source. A
  message that the source builds from the message of the error it wraps is named by its
  prefix; the wrapped error is kept in the \<open>AppError\<close>.
\<close>

datatype message =
    InvalidPersonObject \<comment> \<open>Invalid person object\<close>
  | ValidationFailed "field list" \<comment> \<open>Validation failed: and the messages of the fields\<close>
  | AlreadyRegistered \<comment> \<open>Pessoa ja cadastrada com este email ou telefone\<close>
  | InvalidIndex \<comment> \<open>Indice invalido\<close>
  | AddFailed \<comment> \<open>Erro ao adicionar pessoa:\<close>
  | UpdateFailed \<comment> \<open>Erro ao atualizar pessoa:\<close>
  | RemoveFailed \<comment> \<open>Erro ao remover pessoa:\<close>
  | LoadFailed \<comment> \<open>Erro ao carregar dados do armazenamento\<close>
  | StorageFull \<comment> \<open>Armazenamento local cheio. Remova alguns registros.\<close>
  | SaveFailed \<comment> \<open>Erro ao salvar dados no armazenamento\<close>
  | ClearFailed \<comment> \<open>Erro ao limpar dados:\<close>
  | ImportFailed \<comment> \<open>Erro ao importar dados:\<close>
  | InvalidData "importIssue list" \<comment> \<open>Dados invalidos: and the issues\<close>
  | ReplaceFailed \<comment> \<open>Erro ao substituir dados:\<close>
  | RestoreFailed \<comment> \<open>Erro ao restaurar backup:\<close>
  | BackupCreateFailed \<comment> \<open>Erro ao criar backup:\<close>
  | BackupNotFound \<comment> \<open>Backup nao encontrado\<close>
  | BackupCorrupt \<comment> \<open>Backup corrompido - checksum invalido\<close>
  | NoFileSelected \<comment> \<open>Nenhum arquivo selecionado\<close>
  | FileMustBeJson \<comment> \<open>Arquivo deve ser do tipo JSON\<close>
  | InvalidFileFormat \<comment> \<open>Formato de arquivo invalido\<close>
  | FileCorrupt \<comment> \<open>Arquivo corrompido - checksum invalido\<close>
  | FileProcessFailed \<comment> \<open>Erro ao processar arquivo:\<close>
  | FileReadFailed \<comment> \<open>Erro ao ler arquivo\<close>
  | FileImportFailed \<comment> \<open>Erro ao importar arquivo:\<close>

text \<open>
  What a call throws: an error of the platform, or an \<open>AppError\<close> with its message, its
  type and the error it wraps (\<open>details.originalError\<close>), if any.
\<close>

datatype error =
    Native native
  | AppError message ErrorTypes "error option"

fun isAppError :: "error \<Rightarrow> bool" where
  "isAppError (AppError m t c) = True"
| "isAppError (Native n) = False"

text \<open>\<open>error.type\<close>; an error of the platform has none.\<close>

fun etype :: "error \<Rightarrow> ErrorTypes option" where
  "etype (AppError m t c) = Some t"
| "etype (Native n) = None"

text \<open>Runs the rest of a computation on the value of a property read.\<close>

definition withProp :: "jsval \<Rightarrow> string \<Rightarrow> (jsval \<Rightarrow> error + 'a) \<Rightarrow> error + 'a" where
  "withProp v k f = (case getProp v k of Inl e \<Rightarrow> Inl (Native e) | Inr x \<Rightarrow> f x)"

section \<open>The Person model\<close>

text \<open>
  A \<open>Person\<close> object, by value. The constructor makes \<open>nome\<close> a string; the other three
  fields hold whatever the caller passed; the two stamps are \<open>Date\<close>s (\<open>None\<close>: an invalid
  date).
\<close>

record Person =
  personId :: jsval
  nome :: string
  dataNascimento :: jsval
  telefone :: jsval
  email :: jsval
  createdAt :: "int option"
  updatedAt :: "int option"

text \<open>
  What a call takes from the outside: the reading of the clock (\<open>Date.now()\<close>,
  \<open>new Date()\<close>; the readings of one call are taken as one) and the digits that
  \<open>Math.random().toString(36).substr(2, 9)\<close> yields.
\<close>

record env =
  now :: int
  random :: string

definition generateId :: "env \<Rightarrow> string" where
  "generateId e = ''person_'' @ intToString 10 (now e) @ ''_'' @ random e"

text \<open>
  \<open>new Person(nome, dataNascimento, telefone, email)\<close>. \<open>nome.toUpperCase()\<close> is a
  \<open>TypeError\<close> when \<open>nome\<close> is truthy and not a string.
\<close>

definition newPerson :: "env \<Rightarrow> jsval \<Rightarrow> jsval \<Rightarrow> jsval \<Rightarrow> jsval \<Rightarrow> error + Person" where
  "newPerson e n d t m =
     (if truthy n \<and> \<not> isString n then Inl (Native TypeError)
      else Inr \<lparr> personId = JStr (generateId e),
                 nome = (case n of JStr s \<Rightarrow> toUpperCase s | _ \<Rightarrow> []),
                 dataNascimento = d,
                 telefone = t,
                 email = m,
                 createdAt = Some (now e),
                 updatedAt = Some (now e) \<rparr>)"

record ValidationResult =
  isValid :: bool
  errors :: "field list"

text \<open>\<open>Person.validate\<close>; \<open>today\<close> is the clock that \<open>validateBirthDate\<close> reads.\<close>

definition validate :: "int \<Rightarrow> Person \<Rightarrow> ValidationResult" where
  "validate today p =
     (let errs = (if \<not> validateName (JStr (nome p)) then [F_nome] else [])
               @ (if \<not> validateBirthDate today (dataNascimento p) then [F_dataNascimento] else [])
               @ (if \<not> validatePhone (telefone p) then [F_telefone] else [])
               @ (if \<not> validateEmail (email p) then [F_email] else [])
      in \<lparr> isValid = (length errs = 0), errors = errs \<rparr>)"

text \<open>
  \<open>Person.update(data)\<close>: a property of \<open>data\<close> that is not \<open>undefined\<close> replaces the
  field; \<open>data.nome.toUpperCase()\<close> is a \<open>TypeError\<close> unless \<open>data.nome\<close> is a string, and
  it is the first statement, so nothing has changed when it throws.
\<close>

definition update :: "env \<Rightarrow> jsval \<Rightarrow> Person \<Rightarrow> error + Person" where
  "update e data p =
     withProp data ''nome'' (\<lambda>n.
     withProp data ''dataNascimento'' (\<lambda>d.
     withProp data ''telefone'' (\<lambda>t.
     withProp data ''email'' (\<lambda>m.
       if n \<noteq> JUndefined \<and> \<not> isString n then Inl (Native TypeError)
       else Inr (p \<lparr> nome := (case n of JStr s \<Rightarrow> toUpperCase s | _ \<Rightarrow> nome p),
                      dataNascimento := (if d \<noteq> JUndefined then d else dataNascimento p),
                      telefone := (if t \<noteq> JUndefined then t else telefone p),
                      email := (if m \<noteq> JUndefined then m else email p),
                      updatedAt := Some (now e) \<rparr>)))))"

text \<open>\<open>Person.toJSON\<close>: a plain object, the two stamps still \<open>Date\<close> objects.\<close>

definition toJSON :: "Person \<Rightarrow> jsval" where
  "toJSON p =
     JObj [(''id'', personId p),
           (''nome'', JStr (nome p)),
           (''dataNascimento'', dataNascimento p),
           (''telefone'', telefone p),
           (''email'', email p),
           (''createdAt'', JDate (createdAt p)),
           (''updatedAt'', JDate (updatedAt p))]"

text \<open>
  \<open>new Date(v)\<close> for one argument: a \<open>Date\<close> gives a date of the same time value, a number
  is the time value, a string is parsed. (JavaScript would parse the string form of an
  array or of an object; the model takes such a date as invalid.)
\<close>

fun newDate :: "jsval \<Rightarrow> int option" where
  "newDate (JDate t) = t"
| "newDate (JNum n) = Some n"
| "newDate (JStr s) = dateParse s"
| "newDate (JBool b) = Some (if b then 1 else 0)"
| "newDate JNull = Some 0"
| "newDate v = None"

text \<open>\<open>Person.fromJSON(data)\<close>.\<close>

definition fromJSON :: "env \<Rightarrow> jsval \<Rightarrow> error + Person" where
  "fromJSON e data =
     withProp data ''nome'' (\<lambda>n.
     withProp data ''dataNascimento'' (\<lambda>d.
     withProp data ''telefone'' (\<lambda>t.
     withProp data ''email'' (\<lambda>m.
       case newPerson e n d t m of
         Inl err \<Rightarrow> Inl err
       | Inr person \<Rightarrow>
           withProp data ''id'' (\<lambda>i.
           withProp data ''createdAt'' (\<lambda>c.
           withProp data ''updatedAt'' (\<lambda>u.
             Inr (person \<lparr> personId := (if truthy i then i else personId person),
                           createdAt := (if truthy c then newDate c else createdAt person),
                           updatedAt := (if truthy u then newDate u else updatedAt person) \<rparr>))))))))"

section \<open>The browser's store and the heap of arrays\<close>

text \<open>
  An item of \<open>localStorage\<close> is a text. The model keeps the document that the text
  denotes: \<open>Json v\<close> is the text that \<open>JSON.stringify\<close> writes for \<open>v\<close> and that
  \<open>JSON.parse\<close> reads back as \<open>v\<close>, and \<open>Raw t\<close> is a text \<open>t\<close> that \<open>JSON.parse\<close>
  refuses (or the empty text).
\<close>

datatype item = Json jsval | Raw string

text \<open>
  The state of the running page: the array that the manager's field \<open>persons\<close> refers to,
  the arrays of \<open>Person\<close> objects that exist (a reference below \<open>nextRef\<close> is in use; a
  new array takes \<open>nextRef\<close>), the items of \<open>localStorage\<close> and the number of characters
  it can hold. A \<open>Person\<close> in an array is held by value.
\<close>

record state =
  persons :: nat
  arrays :: "nat \<Rightarrow> Person list"
  nextRef :: nat
  items :: "(string \<times> item) list"
  quota :: int

definition getPersons :: "state \<Rightarrow> Person list" where
  "getPersons s = arrays s (persons s)"

definition setPersons :: "Person list \<Rightarrow> state \<Rightarrow> state" where
  "setPersons ps s = s \<lparr> arrays := (arrays s)(persons s := ps) \<rparr>"

text \<open>A new array with the given elements; the result is its reference.\<close>

definition newArray :: "Person list \<Rightarrow> state \<Rightarrow> nat \<times> state" where
  "newArray ps s = (nextRef s, s \<lparr> arrays := (arrays s)(nextRef s := ps), nextRef := nextRef s + 1 \<rparr>)"

definition itemText :: "item \<Rightarrow> string" where
  "itemText i =
     (case i of
        Json v \<Rightarrow> (case stringify v of None \<Rightarrow> ''undefined'' | Some t \<Rightarrow> t)
      | Raw t \<Rightarrow> t)"

definition getItem :: "string \<Rightarrow> state \<Rightarrow> item option" where
  "getItem k s = map_of (items s) k"

fun putItem :: "string \<Rightarrow> item \<Rightarrow> (string \<times> item) list \<Rightarrow> (string \<times> item) list" where
  "putItem k v [] = [(k, v)]"
| "putItem k v (p # ps) = (if fst p = k then (k, v) # ps else p # putItem k v ps)"

definition usage :: "(string \<times> item) list \<Rightarrow> nat" where
  "usage its = sum_list (map (\<lambda>p. length (fst p) + length (itemText (snd p))) its)"

text \<open>
  \<open>localStorage.setItem\<close>: a \<open>QuotaExceededError\<close>, and no change, when the items would
  not fit.
\<close>

definition setItem :: "string \<Rightarrow> item \<Rightarrow> state \<Rightarrow> native + state" where
  "setItem k v s =
     (let its = putItem k v (items s)
      in if int (usage its) > quota s then Inl QuotaExceededError else Inr (s \<lparr> items := its \<rparr>))"

text \<open>\<open>localStorage.setItem(k, JSON.stringify(v))\<close> for a \<open>v\<close> that is not \<open>undefined\<close>.\<close>

definition storeJSON :: "string \<Rightarrow> jsval \<Rightarrow> state \<Rightarrow> native + state" where
  "storeJSON k v s = setItem k (Json (jsonClone v)) s"

section \<open>DataBackup\<close>

definition backupKey :: string where
  "backupKey = ''backup_listaPessoas''"

definition maxBackups :: nat where
  "maxBackups = 5"

text \<open>
  \<open>getBackups\<close>: the parsed item, and \<open>[]\<close> when there is none, when its text is empty or
  when \<open>JSON.parse\<close> throws.
\<close>

definition getBackups :: "state \<Rightarrow> jsval" where
  "getBackups s =
     (case getItem backupKey s of
        None \<Rightarrow> JArr []
      | Some (Raw t) \<Rightarrow> JArr []
      | Some (Json v) \<Rightarrow> v)"

text \<open>
  \<open>ToInt32\<close>: the 32-bit two's complement value that the bitwise operators of
  JavaScript work on.
\<close>

definition toInt32 :: "int \<Rightarrow> int" where
  "toInt32 x = (x + 2147483648) mod 4294967296 - 2147483648"

text \<open>
  \<open>calculateChecksum\<close>. \<open>hash << 5\<close> is \<open>hash\<close> times 32 brought back to 32 bits, and
  \<open>hash & hash\<close> brings the sum back to 32 bits. \<open>str.length\<close> is a \<open>TypeError\<close> when
  \<open>JSON.stringify\<close> has returned \<open>undefined\<close>.
\<close>

definition hashStep :: "int \<Rightarrow> char \<Rightarrow> int" where
  "hashStep hash c =
     (let char = (of_char c :: int);
          hash1 = toInt32 (hash * 32) - hash + char
      in toInt32 hash1)"

definition calculateChecksum :: "jsval \<Rightarrow> native + string" where
  "calculateChecksum data =
     (case stringify data of
        None \<Rightarrow> Inl TypeError
      | Some str \<Rightarrow> Inr (intToString 16 (foldl hashStep 0 str)))"

definition generateBackupId :: "env \<Rightarrow> string" where
  "generateBackupId e = ''backup_'' @ intToString 10 (now e) @ ''_'' @ random e"

text \<open>
  \<open>createBackup\<close>. Every error is wrapped. \<open>JSON.parse(JSON.stringify(data))\<close> is a
  \<open>SyntaxError\<close> when \<open>data\<close> is \<open>undefined\<close>; \<open>unshift\<close> is a \<open>TypeError\<close> when the
  stored history is not an array.
\<close>

definition createBackup :: "env \<Rightarrow> jsval \<Rightarrow> state \<Rightarrow> (error + string) \<times> state" where
  "createBackup e data s =
     (let failed = (\<lambda>n. (Inl (AppError BackupCreateFailed STORAGE_ERROR (Some (Native n))), s))
      in if data = JUndefined then failed SyntaxError
         else case calculateChecksum data of
           Inl n \<Rightarrow> failed n
         | Inr checksum \<Rightarrow>
             (let backup = JObj [(''id'', JStr (generateBackupId e)),
                                 (''timestamp'', JStr (toISOString (now e))),
                                 (''data'', jsonClone data),
                                 (''version'', JStr ''1.0''),
                                 (''checksum'', JStr checksum)]
              in case getBackups s of
                   JArr existingBackups \<Rightarrow>
                     (case storeJSON backupKey
                             (JArr (take maxBackups (backup # existingBackups))) s of
                        Inl n \<Rightarrow> failed n
                      | Inr s' \<Rightarrow> (Inr (generateBackupId e), s'))
                 | _ \<Rightarrow> failed TypeError))"

text \<open>\<open>backups.find((b) => b.id === backupId)\<close>.\<close>

fun findBackup :: "jsval list \<Rightarrow> string \<Rightarrow> native + jsval option" where
  "findBackup [] backupId = Inr None"
| "findBackup (b # bs) backupId =
     (case getProp b ''id'' of
        Inl n \<Rightarrow> Inl n
      | Inr i \<Rightarrow> if strictEq i (JStr backupId) then Inr (Some b) else findBackup bs backupId)"

definition rethrow :: "message \<Rightarrow> ErrorTypes \<Rightarrow> error \<Rightarrow> error" where
  \<comment> \<open>\<open>if (error instanceof AppError) throw error; throw new AppError(...)\<close>\<close>
  "rethrow m t err = (if isAppError err then err else AppError m t (Some err))"

text \<open>\<open>restoreBackup\<close>: the data of the snapshot, or the error thrown.\<close>

definition restoreBackup :: "string \<Rightarrow> state \<Rightarrow> error + jsval" where
  "restoreBackup backupId s =
     (let native = (\<lambda>n. Inl (rethrow RestoreFailed STORAGE_ERROR (Native n)))
      in case getBackups s of
           JArr backups \<Rightarrow>
             (case findBackup backups backupId of
                Inl n \<Rightarrow> native n
              | Inr None \<Rightarrow> Inl (AppError BackupNotFound VALIDATION_ERROR None)
              | Inr (Some backup) \<Rightarrow>
                  if \<not> truthy backup then Inl (AppError BackupNotFound VALIDATION_ERROR None)
                  else (case getProp backup ''data'' of
                          Inl n \<Rightarrow> native n
                        | Inr data \<Rightarrow>
                            (case calculateChecksum data of
                               Inl n \<Rightarrow> native n
                             | Inr calculatedChecksum \<Rightarrow>
                                 (case getProp backup ''checksum'' of
                                    Inl n \<Rightarrow> native n
                                  | Inr checksum \<Rightarrow>
                                      if \<not> strictEq (JStr calculatedChecksum) checksum
                                      then Inl (AppError BackupCorrupt STORAGE_ERROR None)
                                      else Inr data))))
         | _ \<Rightarrow> native TypeError)"

text \<open>\<open>shouldCreateBackup\<close>.\<close>

definition shouldCreateBackup :: "jsval \<Rightarrow> jsval \<Rightarrow> native + bool" where
  "shouldCreateBackup currentData lastBackupData =
     (case getProp currentData ''length'' of
        Inl n \<Rightarrow> Inl n
      | Inr l1 \<Rightarrow>
          (case getProp lastBackupData ''length'' of
             Inl n \<Rightarrow> Inl n
           | Inr l2 \<Rightarrow>
               if \<not> strictEq l1 l2 then Inr True
               else (case calculateChecksum currentData of
                       Inl n \<Rightarrow> Inl n
                     | Inr currentChecksum \<Rightarrow>
                         (case calculateChecksum lastBackupData of
                            Inl n \<Rightarrow> Inl n
                          | Inr lastChecksum \<Rightarrow> Inr (currentChecksum \<noteq> lastChecksum)))))"

text \<open>\<open>autoBackup\<close>: whatever is thrown is caught and logged.\<close>

definition autoBackup :: "env \<Rightarrow> jsval \<Rightarrow> state \<Rightarrow> state" where
  "autoBackup e data s =
     (case index0 (getBackups s) of
        Inl n \<Rightarrow> s
      | Inr lastBackup \<Rightarrow>
          if \<not> truthy lastBackup then snd (createBackup e data s)
          else (case getProp lastBackup ''data'' of
                  Inl n \<Rightarrow> s
                | Inr lastData \<Rightarrow>
                    (case shouldCreateBackup data lastData of
                       Inl n \<Rightarrow> s
                     | Inr create \<Rightarrow> if create then snd (createBackup e data s) else s)))"

section \<open>DataManager\<close>

definition storageKey :: string where
  "storageKey = ''listaPessoas''"

text \<open>
  The argument of \<open>addPerson\<close> and \<open>updatePerson\<close>: an instance of \<open>Person\<close>, or another
  value.
\<close>

datatype argument = Instance Person | Other jsval


text \<open>
  \<open>isDuplicate(person, excludeIndex)\<close>: some record at another index has the same email
  or the same phone.
\<close>

definition isDuplicate :: "Person \<Rightarrow> int \<Rightarrow> state \<Rightarrow> bool" where
  "isDuplicate person excludeIndex s =
     list_ex (\<lambda>(index, existingPerson).
                if int index = excludeIndex then False
                else strictEq (email existingPerson) (email person)
                     \<or> strictEq (telefone existingPerson) (telefone person))
             (enumerate 0 (getPersons s))"

text \<open>
  \<open>savePersons\<close>: the automatic backup, then the write of the whole collection. The
  result is the error thrown, if any, with the state the call leaves.
\<close>

definition savePersons :: "env \<Rightarrow> state \<Rightarrow> (error + unit) \<times> state" where
  "savePersons e s =
     (let data = JArr (map toJSON (getPersons s));
          s1 = autoBackup e data s
      in case storeJSON storageKey data s1 of
           Inl n \<Rightarrow>
             (if n = QuotaExceededError
              then (Inl (AppError StorageFull STORAGE_QUOTA_ERROR (Some (Native n))), s1)
              else (Inl (AppError SaveFailed STORAGE_ERROR (Some (Native n))), s1))
         | Inr s2 \<Rightarrow> (Inr (), s2))"

text \<open>\<open>addPerson\<close>.\<close>

definition addPerson :: "env \<Rightarrow> argument \<Rightarrow> state \<Rightarrow> (error + bool) \<times> state" where
  "addPerson e person s =
     (case person of
        Other v \<Rightarrow>
          (Inl (rethrow AddFailed STORAGE_ERROR
                  (AppError InvalidPersonObject VALIDATION_ERROR None)), s)
      | Instance p \<Rightarrow>
          (let validation = validate (now e) p
           in if \<not> isValid validation
              then (Inl (rethrow AddFailed STORAGE_ERROR
                           (AppError (ValidationFailed (errors validation)) VALIDATION_ERROR None)),
                    s)
              else if isDuplicate p (- 1) s
              then (Inl (rethrow AddFailed STORAGE_ERROR
                           (AppError AlreadyRegistered DUPLICATE_ERROR None)), s)
              else (case savePersons e (setPersons (getPersons s @ [p]) s) of
                      (Inl err, s') \<Rightarrow> (Inl (rethrow AddFailed STORAGE_ERROR err), s')
                    | (Inr u, s') \<Rightarrow> (Inr True, s'))))"

text \<open>\<open>updatePerson\<close>. The argument takes the identifier and the creation stamp of the
  record it replaces, and the reading of the clock as its \<open>updatedAt\<close>.\<close>

definition updatePerson :: "env \<Rightarrow> int \<Rightarrow> argument \<Rightarrow> state \<Rightarrow> (error + bool) \<times> state" where
  "updatePerson e index updatedPerson s =
     (if index < 0 \<or> index \<ge> int (length (getPersons s))
      then (Inl (rethrow UpdateFailed STORAGE_ERROR
                   (AppError InvalidIndex VALIDATION_ERROR None)), s)
      else case updatedPerson of
        Other v \<Rightarrow>
          (Inl (rethrow UpdateFailed STORAGE_ERROR
                  (AppError InvalidPersonObject VALIDATION_ERROR None)), s)
      | Instance p \<Rightarrow>
          (let validation = validate (now e) p
           in if \<not> isValid validation
              then (Inl (rethrow UpdateFailed STORAGE_ERROR
                           (AppError (ValidationFailed (errors validation)) VALIDATION_ERROR None)),
                    s)
              else if isDuplicate p index s
              then (Inl (rethrow UpdateFailed STORAGE_ERROR
                           (AppError AlreadyRegistered DUPLICATE_ERROR None)), s)
              else (let originalPerson = getPersons s ! nat index;
                        p' = p \<lparr> personId := personId originalPerson,
                                 createdAt := createdAt originalPerson,
                                 updatedAt := Some (now e) \<rparr>
                    in case savePersons e (setPersons ((getPersons s)[nat index := p']) s) of
                         (Inl err, s') \<Rightarrow> (Inl (rethrow UpdateFailed STORAGE_ERROR err), s')
                       | (Inr u, s') \<Rightarrow> (Inr True, s'))))"

text \<open>\<open>deletePerson\<close>: \<open>splice(index, 1)\<close> takes the record out.\<close>

definition deletePerson :: "env \<Rightarrow> int \<Rightarrow> state \<Rightarrow> (error + bool) \<times> state" where
  "deletePerson e index s =
     (if index < 0 \<or> index \<ge> int (length (getPersons s))
      then (Inl (rethrow RemoveFailed STORAGE_ERROR
                   (AppError InvalidIndex VALIDATION_ERROR None)), s)
      else case savePersons e
                  (setPersons (take (nat index) (getPersons s) @ drop (nat index + 1) (getPersons s)) s) of
             (Inl err, s') \<Rightarrow> (Inl (rethrow RemoveFailed STORAGE_ERROR err), s')
           | (Inr u, s') \<Rightarrow> (Inr True, s'))"




text \<open>\<open>getPersonByIndex\<close>; \<open>None\<close> is \<open>null\<close>.\<close>

definition getPersonByIndex :: "int \<Rightarrow> state \<Rightarrow> Person option" where
  "getPersonByIndex index s =
     (if index < 0 \<or> index \<ge> int (length (getPersons s)) then None
      else Some (getPersons s ! nat index))"

text \<open>
  \<open>replaceAllData(persons)\<close>: the argument is an array of \<open>Person\<close> objects, given by its
  reference, and the field \<open>persons\<close> refers to that very array afterwards. Every error is
  wrapped. The backup of the old collection and the save each read the clock and the
  random digits.
\<close>

definition replaceAllData :: "env \<Rightarrow> env \<Rightarrow> nat \<Rightarrow> state \<Rightarrow> (error + bool) \<times> state" where
  "replaceAllData e1 e2 newPersons s =
     (case createBackup e1 (JArr (map toJSON (getPersons s))) s of
        (Inl err, s1) \<Rightarrow> (Inl (AppError ReplaceFailed STORAGE_ERROR (Some err)), s1)
      | (Inr backupId, s1) \<Rightarrow>
          (case savePersons e2 (s1 \<lparr> persons := newPersons \<rparr>) of
             (Inl err, s2) \<Rightarrow> (Inl (AppError ReplaceFailed STORAGE_ERROR (Some err)), s2)
           | (Inr u, s2) \<Rightarrow> (Inr True, s2)))"

text \<open>
  \<open>data.map((personData) => Person.fromJSON(personData))\<close>; \<open>fresh i\<close> is what the
  constructor takes from the clock and the random digits for the entry at index \<open>i\<close>.
\<close>

fun mapFromJSON :: "(nat \<Rightarrow> env) \<Rightarrow> nat \<Rightarrow> jsval list \<Rightarrow> error + Person list" where
  "mapFromJSON fresh i [] = Inr []"
| "mapFromJSON fresh i (d # ds) =
     (case fromJSON (fresh i) d of
        Inl err \<Rightarrow> Inl err
      | Inr p \<Rightarrow>
          (case mapFromJSON fresh (i + 1) ds of
             Inl err \<Rightarrow> Inl err
           | Inr ps \<Rightarrow> Inr (p # ps)))"

text \<open>
  \<open>restoreFromBackup\<close>. \<open>backupData.map\<close> is a \<open>TypeError\<close> when the data of the snapshot
  is not an array.
\<close>

definition restoreFromBackup ::
  "(nat \<Rightarrow> env) \<Rightarrow> env \<Rightarrow> string \<Rightarrow> state \<Rightarrow> (error + bool) \<times> state" where
  "restoreFromBackup fresh e backupId s =
     (case restoreBackup backupId s of
        Inl err \<Rightarrow> (Inl (rethrow RestoreFailed STORAGE_ERROR err), s)
      | Inr (JArr backupData) \<Rightarrow>
          (case mapFromJSON fresh 0 backupData of
             Inl err \<Rightarrow> (Inl (rethrow RestoreFailed STORAGE_ERROR err), s)
           | Inr restoredPersons \<Rightarrow>
               (let (r, s1) = newArray restoredPersons s
                in case savePersons e (s1 \<lparr> persons := r \<rparr>) of
                     (Inl err, s2) \<Rightarrow> (Inl (rethrow RestoreFailed STORAGE_ERROR err), s2)
                   | (Inr u, s2) \<Rightarrow> (Inr True, s2)))
      | Inr v \<Rightarrow> (Inl (rethrow RestoreFailed STORAGE_ERROR (Native TypeError)), s))"

section \<open>Import\<close>

text \<open>
  A file picked by the user: its MIME type, its name, and what reading it as text gives
  (\<open>Unreadable\<close> when the reader fails; otherwise the text, as the document it denotes or
  as a text that \<open>JSON.parse\<close> refuses).
\<close>

datatype fileContent = Unreadable | Content item

record importFile =
  ftype :: string
  fname :: string
  content :: fileContent

definition endsWith :: "string \<Rightarrow> string \<Rightarrow> bool" where
  "endsWith s suffix = (length suffix \<le> length s \<and> drop (length s - length suffix) s = suffix)"

text \<open>
  \<open>importFromFile\<close>: what the promise resolves with, or the error it rejects with. The
  argument is \<open>None\<close> when no file was given.
\<close>

definition importFromFile :: "importFile option \<Rightarrow> error + jsval" where
  "importFromFile f =
     (case f of
        None \<Rightarrow> Inl (AppError NoFileSelected VALIDATION_ERROR None)
      | Some fl \<Rightarrow>
          if ftype fl \<noteq> ''application/json'' \<and> \<not> endsWith (fname fl) ''.json''
          then Inl (AppError FileMustBeJson VALIDATION_ERROR None)
          else (let native = (\<lambda>n. Inl (AppError FileProcessFailed VALIDATION_ERROR (Some (Native n))))
                in case content fl of
                     Unreadable \<Rightarrow> Inl (AppError FileReadFailed UNKNOWN_ERROR None)
                   | Content (Raw t) \<Rightarrow> native SyntaxError
                   | Content (Json importData) \<Rightarrow>
                       (case getProp importData ''data'' of
                          Inl n \<Rightarrow> native n
                        | Inr data \<Rightarrow>
                            (case data of
                               JArr xs \<Rightarrow>
                                 (case getProp importData ''checksum'' of
                                    Inl n \<Rightarrow> native n
                                  | Inr checksum \<Rightarrow>
                                      if truthy checksum
                                      then (case calculateChecksum data of
                                              Inl n \<Rightarrow> native n
                                            | Inr calculatedChecksum \<Rightarrow>
                                                if \<not> strictEq (JStr calculatedChecksum) checksum
                                                then Inl (AppError FileCorrupt STORAGE_ERROR None)
                                                else Inr data)
                                      else Inr data)
                             | _ \<Rightarrow> Inl (AppError InvalidFileFormat VALIDATION_ERROR None)))))"

text \<open>
  The result of \<open>validateImportData\<close>: \<open>ok\<close> is its \<open>isValid\<close>, \<open>problems\<close> its \<open>errors\<close>;
  \<open>warnings\<close> stays empty.
\<close>

record importValidation =
  ok :: bool
  problems :: "importIssue list"
  warnings :: "string list"
  validRecords :: nat
  invalidRecords :: nat

text \<open>The four tests on the entry at \<open>index\<close>; reading a property of \<open>null\<close> throws.\<close>

definition itemErrors :: "nat \<Rightarrow> jsval \<Rightarrow> native + importIssue list" where
  "itemErrors index item =
     (case (getProp item ''nome'', getProp item ''email'', getProp item ''telefone'',
            getProp item ''dataNascimento'') of
        (Inr n, Inr m, Inr t, Inr d) \<Rightarrow>
          Inr ((if \<not> truthy n \<or> \<not> isString n then [RecordIssue (index + 1) F_nome] else [])
             @ (if \<not> truthy m \<or> \<not> isString m then [RecordIssue (index + 1) F_email] else [])
             @ (if \<not> truthy t \<or> \<not> isString t then [RecordIssue (index + 1) F_telefone] else [])
             @ (if \<not> truthy d then [RecordIssue (index + 1) F_dataNascimento] else []))
      | _ \<Rightarrow> Inl TypeError)"

text \<open>The loop of \<open>validateImportData\<close> from the entry at \<open>index\<close> on.\<close>

fun checkItems :: "nat \<Rightarrow> jsval list \<Rightarrow> importValidation \<Rightarrow> native + importValidation" where
  "checkItems index [] result = Inr result"
| "checkItems index (item # rest) result =
     (case itemErrors index item of
        Inl n \<Rightarrow> Inl n
      | Inr errs \<Rightarrow>
          checkItems (index + 1) rest
            (if length errs > 0
             then result \<lparr> invalidRecords := invalidRecords result + 1,
                           problems := problems result @ errs \<rparr>
             else result \<lparr> validRecords := validRecords result + 1 \<rparr>))"

definition validateImportData :: "jsval \<Rightarrow> native + importValidation" where
  "validateImportData data =
     (let result = \<lparr> ok = True, problems = [], warnings = [], validRecords = 0,
                     invalidRecords = 0 \<rparr>
      in case data of
           JArr xs \<Rightarrow>
             (case checkItems 0 xs result of
                Inl n \<Rightarrow> Inl n
              | Inr result' \<Rightarrow>
                  Inr (if length (problems result') > 0 then result' \<lparr> ok := False \<rparr> else result'))
         | _ \<Rightarrow> Inr (result \<lparr> ok := False, problems := [NotAnArray] \<rparr>))"

text \<open>
  \<open>importData\<close>: the candidates, in a new array, with the summary, or the error thrown.
\<close>

definition importData ::
  "(nat \<Rightarrow> env) \<Rightarrow> importFile option \<Rightarrow> state \<Rightarrow> (error + nat \<times> importValidation) \<times> state" where
  "importData fresh f s =
     (case importFromFile f of
        Inl err \<Rightarrow> (Inl (rethrow ImportFailed UNKNOWN_ERROR err), s)
      | Inr importedData \<Rightarrow>
          (case validateImportData importedData of
             Inl n \<Rightarrow> (Inl (rethrow ImportFailed UNKNOWN_ERROR (Native n)), s)
           | Inr validation \<Rightarrow>
               if \<not> ok validation
               then (Inl (rethrow ImportFailed UNKNOWN_ERROR
                            (AppError (InvalidData (problems validation)) VALIDATION_ERROR None)), s)
               else (case importedData of
                       JArr xs \<Rightarrow>
                         (case mapFromJSON fresh 0 xs of
                            Inl err \<Rightarrow> (Inl (rethrow ImportFailed UNKNOWN_ERROR err), s)
                          | Inr importedPersons \<Rightarrow>
                              (let (r, s') = newArray importedPersons s
                               in (Inr (r, validation), s')))
                     | _ \<Rightarrow> (Inl (rethrow ImportFailed UNKNOWN_ERROR (Native TypeError)), s))))"

section \<open>Notions of the specification\<close>

text \<open>
  The calendar the specification speaks of: the length of month \<open>m\<close> (1 to 12) of year
  \<open>y\<close>, and the age in whole years on the day of \<open>today\<close> of someone born on the day of
  \<open>birth\<close> (the difference of the years, less one while the birthday of the year is still
  to come).
\<close>

definition daysInMonth :: "int \<Rightarrow> int \<Rightarrow> int" where
  "daysInMonth y m =
     (if m = 2 then (if daysInYear y = 366 then 29 else 28)
      else if m = 4 \<or> m = 6 \<or> m = 9 \<or> m = 11 then 30
      else 31)"

definition ageInWholeYears :: "int \<Rightarrow> int \<Rightarrow> int" where
  "ageInWholeYears birth today =
     getFullYear today - getFullYear birth
       - (if getMonth today < getMonth birth
             \<or> (getMonth today = getMonth birth \<and> getDate today < getDate birth)
          then 1 else 0)"

text \<open>
  A string in the form DD/MM/YYYY: two digits, a slash, two digits, a slash, four digits,
  and nothing else.
\<close>

definition isDDMMYYYY :: "string \<Rightarrow> bool" where
  "isDDMMYYYY s =
     (length s = 10 \<and> isDigits (take 2 s) \<and> s ! 2 = CHR ''/'' \<and> isDigits (take 2 (drop 3 s))
      \<and> s ! 5 = CHR ''/'' \<and> isDigits (drop 6 s))"

text \<open>
  A Record as the \<open>Person\<close> class makes it: its identifier is truthy (the constructor
  generates a non-empty string, \<open>fromJSON\<close> keeps a truthy one) and its name is in upper
  case.
\<close>

definition isRecord :: "Person \<Rightarrow> bool" where
  "isRecord p = (truthy (personId p) \<and> toUpperCase (nome p) = nome p)"

text \<open>
  An imported entry is structurally valid when its name, its email and its phone are
  strings that are not empty and its birth date is present (truthy: neither missing nor
  \<open>null\<close>, \<open>false\<close>, 0 or the empty string).
\<close>

definition nonEmptyString :: "jsval \<Rightarrow> string \<Rightarrow> bool" where
  "nonEmptyString item k = (case getProp item k of Inr (JStr s) \<Rightarrow> s \<noteq> [] | _ \<Rightarrow> False)"

definition entryOk :: "jsval \<Rightarrow> bool" where
  "entryOk item =
     (nonEmptyString item ''nome'' \<and> nonEmptyString item ''email''
      \<and> nonEmptyString item ''telefone''
      \<and> (case getProp item ''dataNascimento'' of Inr d \<Rightarrow> truthy d | _ \<Rightarrow> False))"

text \<open>An entry that is an object at all: not \<open>null\<close> (and not \<open>undefined\<close>).\<close>

definition notNull :: "jsval \<Rightarrow> bool" where
  "notNull v = (v \<noteq> JNull \<and> v \<noteq> JUndefined)"

text \<open>
  Two Records share a contact when their emails are the same string or their phones are
  the same string; a collection has no duplicates when no two of its Records, at different
  places, share one.
\<close>

definition sameContact :: "Person \<Rightarrow> Person \<Rightarrow> bool" where
  "sameContact p q = (strictEq (email p) (email q) \<or> strictEq (telefone p) (telefone q))"

fun noDuplicates :: "Person list \<Rightarrow> bool" where
  "noDuplicates [] = True"
| "noDuplicates (p # ps) = (list_all (\<lambda>q. \<not> sameContact p q) ps \<and> noDuplicates ps)"

text \<open>
  The states that the manager reaches from \<open>s0\<close> through \<open>addPerson\<close>, \<open>updatePerson\<close>,
  \<open>deletePerson\<close> and \<open>restoreFromBackup\<close>, whatever the arguments, the clock, and the
  outcome of each call.
\<close>

inductive reachable :: "state \<Rightarrow> state \<Rightarrow> bool" for s0 :: state where
  start: "reachable s0 s0"
| added: "reachable s0 s \<Longrightarrow> addPerson e a s = (r, s') \<Longrightarrow> reachable s0 s'"
| updated: "reachable s0 s \<Longrightarrow> updatePerson e i a s = (r, s') \<Longrightarrow> reachable s0 s'"
| deleted: "reachable s0 s \<Longrightarrow> deletePerson e i s = (r, s') \<Longrightarrow> reachable s0 s'"
| restored: "reachable s0 s \<Longrightarrow> restoreFromBackup fresh e backupId s = (r, s') \<Longrightarrow> reachable s0 s'"

text \<open>
  What the manager's own calls keep true, beyond the absence of duplicates: the emails and
  the phones of the collection are strings, and the stored history is an array of
  snapshots in JSON, each taken of a collection of that kind.
\<close>

definition stringContacts :: "Person list \<Rightarrow> bool" where
  "stringContacts ps = list_all (\<lambda>p. isString (email p) \<and> isString (telefone p)) ps"

definition cleanHistory :: "state \<Rightarrow> bool" where
  "cleanHistory s =
     (\<exists>bs. getBackups s = JArr bs
        \<and> (\<forall>b\<in>set bs. isJSON b
              \<and> (\<exists>ps. getProp b ''data'' = Inr (JArr (map (\<lambda>p. jsonClone (toJSON p)) ps))
                     \<and> noDuplicates ps \<and> stringContacts ps)))"

definition cleanState :: "state \<Rightarrow> bool" where
  "cleanState s =
     (noDuplicates (getPersons s) \<and> stringContacts (getPersons s) \<and> cleanHistory s)"

text \<open>Two Records with the same email and the same phone.\<close>

definition sameFields :: "Person \<Rightarrow> Person \<Rightarrow> bool" where
  "sameFields p' p = (email p' = email p \<and> telefone p' = telefone p)"


text \<open>
  Tampering with the newest snapshot of the stored history: its \<open>data\<close> is replaced by
  \<open>d\<close>, everything else stays.
\<close>

definition setData :: "jsval \<Rightarrow> jsval \<Rightarrow> jsval" where
  "setData d b =
     (case b of
        JObj ps \<Rightarrow> JObj (map (\<lambda>p. if fst p = ''data'' then (''data'', d) else p) ps)
      | _ \<Rightarrow> b)"

definition tamperNewest :: "jsval \<Rightarrow> state \<Rightarrow> state" where
  "tamperNewest d s =
     (case getItem backupKey s of
        Some (Json (JArr (b # bs))) \<Rightarrow>
          s \<lparr> items := putItem backupKey (Json (JArr (setData d b # bs))) (items s) \<rparr>
      | _ \<Rightarrow> s)"

section \<open>Sample data\<close>

text \<open>
  A reading of the clock (3 November 2026, 00:00) with its random digits, a Record made
  then, the same Record as an entry of an export file, a second Record with the same
  email, and a page with no record, nothing stored and room for \<open>q\<close> characters.
\<close>

definition clock0 :: env where
  "clock0 = \<lparr> now = 1793664000000, random = ''k3x9q0a1z'' \<rparr>"

definition ana :: Person where
  "ana = \<lparr> personId = JStr ''person_1793664000000_k3x9q0a1z'', nome = ''ANA LIMA'',
           dataNascimento = JStr ''10/05/1995'', telefone = JStr ''(21) 98888-7777'',
           email = JStr ''ana@x.com'', createdAt = Some 1793664000000,
           updatedAt = Some 1793664000000 \<rparr>"

definition anaEntry :: jsval where
  "anaEntry = JObj [(''id'', JStr ''person_1793664000000_k3x9q0a1z''),
                    (''nome'', JStr ''ANA LIMA''),
                    (''dataNascimento'', JStr ''10/05/1995''),
                    (''telefone'', JStr ''(21) 98888-7777''),
                    (''email'', JStr ''ana@x.com''),
                    (''createdAt'', JStr ''2026-11-03T00:00:00.000Z''),
                    (''updatedAt'', JStr ''2026-11-03T00:00:00.000Z'')]"

definition bia :: Person where
  "bia = \<lparr> personId = JStr ''person_1793664000000_b1a000000'', nome = ''BIA SOUZA'',
           dataNascimento = JStr ''01/02/1990'', telefone = JStr ''(11) 3333-4444'',
           email = JStr ''ana@x.com'', createdAt = Some 1793664000000,
           updatedAt = Some 1793664000000 \<rparr>"

definition emptyPage :: "int \<Rightarrow> state" where
  "emptyPage q = \<lparr> persons = 0, arrays = (\<lambda>r. []), nextRef = 1, items = [], quota = q \<rparr>"

definition exportFile :: "jsval list \<Rightarrow> importFile" where
  "exportFile entries =
     \<lparr> ftype = ''application/json'', fname = ''pessoas_backup_2026-11-03.json'',
       content = Content (Json (JObj [(''exportDate'', JStr ''2026-11-03T00:00:00.000Z''),
                                      (''version'', JStr ''1.0''),
                                      (''data'', JArr entries)])) \<rparr>"

text \<open>Half a second after \<open>clock0\<close>.\<close>

definition clock1 :: env where
  "clock1 = \<lparr> now = 1793664000500, random = ''w7r2m5c8d'' \<rparr>"

text \<open>
  A page with no record and nothing stored, where the caller holds an array (reference 1)
  of the given \<open>Person\<close> objects.
\<close>

definition pageWithArray :: "int \<Rightarrow> Person list \<Rightarrow> state" where
  "pageWithArray q xs =
     \<lparr> persons = 0, arrays = (\<lambda>r. [])(1 := xs), nextRef = 2, items = [], quota = q \<rparr>"




section \<open>The calendar of the date model\<close>

lemma daysInYear_cases: "daysInYear y = 365 \<or> daysInYear y = 366"
  by (simp add: daysInYear_def)

lemma dayFromYear_add: "dayFromYear y \<le> dayFromYear (y + int n)"
proof (induction n)
  case 0 show ?case by simp
next
  case (Suc n)
  have "dayFromYear (y + int (Suc n)) = dayFromYear (y + int n) + daysInYear (y + int n)"
    using dayFromYear_succ [of "y + int n"] by (simp add: algebra_simps)
  with Suc daysInYear_cases [of "y + int n"] show ?case by auto
qed

lemma dayFromYear_mono: "y \<le> z \<Longrightarrow> dayFromYear y \<le> dayFromYear z"
  using dayFromYear_add [of y "nat (z - y)"] by simp

lemma dayFromYear_less_imp: "dayFromYear y < dayFromYear z \<Longrightarrow> y < z"
  using dayFromYear_mono [of z y] by (cases "y < z") auto

lemma yearUpFrom_unique:
  "dayFromYear y0 \<le> d \<Longrightarrow> dayFromYear y \<le> d \<Longrightarrow> d < dayFromYear (y + 1) \<Longrightarrow> yearUpFrom y0 d = y"
proof (induction y0 d rule: yearUpFrom.induct)
  case (1 y0 d)
  show ?case
  proof (cases "dayFromYear (y0 + 1) \<le> d")
    case True
    with 1 show ?thesis by (subst yearUpFrom.simps) simp
  next
    case False
    then have "dayFromYear y < dayFromYear (y0 + 1)" using 1 by simp
    then have a: "y < y0 + 1" by (rule dayFromYear_less_imp)
    from 1 have "dayFromYear y0 < dayFromYear (y + 1)" by simp
    then have b: "y0 < y + 1" by (rule dayFromYear_less_imp)
    from a b have "y0 = y" by simp
    with False show ?thesis by (subst yearUpFrom.simps) simp
  qed
qed

lemma dayFromYear_upper: "dayFromYear (1970 + int k) \<le> 366 * int k"
proof (induction k)
  case 0 show ?case by (simp add: dayFromYear_def)
next
  case (Suc k)
  have "dayFromYear (1970 + int (Suc k)) = dayFromYear (1970 + int k) + daysInYear (1970 + int k)"
    using dayFromYear_succ [of "1970 + int k"] by (simp add: algebra_simps)
  with Suc daysInYear_cases [of "1970 + int k"] show ?case by auto
qed

lemma dayFromYear_lower: "dayFromYear (1970 - int k) \<le> - 365 * int k"
proof (induction k)
  case 0 show ?case by (simp add: dayFromYear_def)
next
  case (Suc k)
  have "dayFromYear (1970 - int k) = dayFromYear (1970 - int (Suc k)) + daysInYear (1970 - int (Suc k))"
    using dayFromYear_succ [of "1970 - int (Suc k)"] by simp
  with Suc daysInYear_cases [of "1970 - int (Suc k)"] show ?case by auto
qed

lemma start_year_early: "dayFromYear (1970 + (if 0 \<le> d then d div 366 else d div 365)) \<le> d"
proof (cases "0 \<le> d")
  case True
  then have "0 \<le> d div 366" by simp
  then have "dayFromYear (1970 + d div 366) \<le> 366 * (d div 366)"
    using dayFromYear_upper [of "nat (d div 366)"] by simp
  also have "\<dots> \<le> d"
  proof -
    have "d = 366 * (d div 366) + d mod 366" by simp
    moreover have "0 \<le> d mod 366" by simp
    ultimately show ?thesis by linarith
  qed
  finally show ?thesis using True by simp
next
  case False
  then have "d div 365 \<le> 0" by (simp add: div_int_pos_iff)
  then have "dayFromYear (1970 + d div 365) \<le> 365 * (d div 365)"
    using dayFromYear_lower [of "nat (- (d div 365))"] by simp
  also have "\<dots> \<le> d"
  proof -
    have "d = 365 * (d div 365) + d mod 365" by simp
    moreover have "0 \<le> d mod 365" by simp
    ultimately show ?thesis by linarith
  qed
  finally show ?thesis using False by simp
qed

lemma yearFromDay_unique:
  "dayFromYear y \<le> d \<Longrightarrow> d < dayFromYear (y + 1) \<Longrightarrow> yearFromDay d = y"
  unfolding yearFromDay_def by (rule yearUpFrom_unique [OF start_year_early])

lemma yearFromDay_within:
  "0 \<le> n \<Longrightarrow> n < daysInYear y \<Longrightarrow> yearFromDay (dayFromYear y + n) = y"
  by (rule yearFromDay_unique) (simp_all add: dayFromYear_succ)


lemma makeDay_in_year:
  "0 \<le> m \<Longrightarrow> m < 12 \<Longrightarrow> makeDay y m d = dayFromYear y + (daysBeforeMonth y m + d - 1)"
  by (simp add: makeDay_def Let_def)

lemma month_cases:
  fixes m :: int
  assumes "1 \<le> m" "m \<le> 12"
  shows "m = 1 \<or> m = 2 \<or> m = 3 \<or> m = 4 \<or> m = 5 \<or> m = 6 \<or> m = 7 \<or> m = 8 \<or> m = 9 \<or> m = 10
         \<or> m = 11 \<or> m = 12"
  using assms by arith

lemma within_year_fields:
  assumes "0 \<le> n" "n < daysInYear y"
  shows "dayWithinYear (dayFromYear y + n) = n"
    and "inLeapYear (dayFromYear y + n) = (if daysInYear y = 366 then 1 else 0)"
  using yearFromDay_within [OF assms] by (simp_all add: dayWithinYear_def inLeapYear_def)


lemma leap_flag:
  obtains l :: int where "l = 0 \<or> l = 1" "daysInYear y = 365 + l"
    "(if daysInYear y = 366 then 1 else 0) = l"
  using daysInYear_cases [of y] by (cases "daysInYear y = 366") auto

lemma civil_roundtrip:
  assumes m: "1 \<le> m" "m \<le> 12" and d: "1 \<le> d" "d \<le> daysInMonth y m"
  shows "yearFromDay (makeDay y (m - 1) d) = y"
    and "monthFromDay (makeDay y (m - 1) d) = m - 1"
    and "dateFromDay (makeDay y (m - 1) d) = d"
proof -
  obtain l :: int where l: "l = 0 \<or> l = 1" "daysInYear y = 365 + l"
    "(if daysInYear y = 366 then 1 else 0) = l" by (rule leap_flag)
  from l(1) have l01: "0 \<le> l" "l \<le> 1" by auto
  define n where "n = daysBeforeMonth y (m - 1) + d - 1"
  have md: "makeDay y (m - 1) d = dayFromYear y + n"
    using m by (simp add: makeDay_in_year n_def)
  have dim: "d \<le> (if m = 2 then 28 + l else if m = 4 \<or> m = 6 \<or> m = 9 \<or> m = 11 then 30 else 31)"
    using d(2) l by (auto simp: daysInMonth_def)
  have range: "0 \<le> n \<and> n < 365 + l"
    using month_cases [OF m]
    by (elim disjE) (use d(1) dim l01 in \<open>simp_all add: n_def daysBeforeMonth_def l(3)\<close>)
  then have "0 \<le> n" "n < daysInYear y" by (simp_all add: l(2))
  from within_year_fields [OF this]
  have f: "dayWithinYear (dayFromYear y + n) = n" "inLeapYear (dayFromYear y + n) = l"
    by (simp_all only: l(3))
  show "yearFromDay (makeDay y (m - 1) d) = y"
    unfolding md using range by (simp add: yearFromDay_within l)
  show mm: "monthFromDay (makeDay y (m - 1) d) = m - 1"
    unfolding md monthFromDay_def f Let_def
    using month_cases [OF m]
    by (elim disjE) (use d(1) dim l01 in \<open>simp_all add: n_def daysBeforeMonth_def l(3)\<close>)
  show "dateFromDay (makeDay y (m - 1) d) = d"
    unfolding dateFromDay_def mm [unfolded md] md f Let_def
    using month_cases [OF m]
    by (elim disjE) (use l01 in \<open>simp_all add: n_def daysBeforeMonth_def l(3)\<close>)
qed

lemma civil_overflow:
  assumes m: "1 \<le> m" "m \<le> 12" and d: "daysInMonth y m < d" "d \<le> 31"
  shows "monthFromDay (makeDay y (m - 1) d) \<noteq> m - 1"
proof -
  obtain l :: int where l: "l = 0 \<or> l = 1" "daysInYear y = 365 + l"
    "(if daysInYear y = 366 then 1 else 0) = l" by (rule leap_flag)
  from l(1) have l01: "0 \<le> l" "l \<le> 1" by auto
  define n where "n = daysBeforeMonth y (m - 1) + d - 1"
  have md: "makeDay y (m - 1) d = dayFromYear y + n"
    using m by (simp add: makeDay_in_year n_def)
  have dim: "(if m = 2 then 28 + l else if m = 4 \<or> m = 6 \<or> m = 9 \<or> m = 11 then 30 else 31) < d"
    using d(1) l by (auto simp: daysInMonth_def)
  have range: "0 \<le> n \<and> n < 365 + l"
    using month_cases [OF m]
    by (elim disjE) (use d(2) dim l01 in \<open>simp_all add: n_def daysBeforeMonth_def l(3)\<close>)
  then have "0 \<le> n" "n < daysInYear y" by (simp_all add: l(2))
  from within_year_fields [OF this]
  have f: "dayWithinYear (dayFromYear y + n) = n" "inLeapYear (dayFromYear y + n) = l"
    by (simp_all only: l(3))
  show ?thesis
    unfolding md monthFromDay_def f Let_def
    using month_cases [OF m]
    by (elim disjE) (use d(2) dim l01 in \<open>simp_all add: n_def daysBeforeMonth_def l(3)\<close>)
qed

section \<open>The birth date validator\<close>

lemma newDateYMD_day: "1900 \<le> year \<Longrightarrow> newDateYMD year m d div msPerDay = makeDay year m d"
  by (simp add: newDateYMD_def msPerDay_def)

lemma roundtrip_iff:
  assumes "1 \<le> month" "month \<le> 12" "1 \<le> day" "day \<le> 31" "1900 \<le> year"
  shows "(getDate (newDateYMD year (month - 1) day) = day
          \<and> getMonth (newDateYMD year (month - 1) day) = month - 1
          \<and> getFullYear (newDateYMD year (month - 1) day) = year)
         \<longleftrightarrow> day \<le> daysInMonth year month"
proof (cases "day \<le> daysInMonth year month")
  case True
  with assms civil_roundtrip [of month day year] show ?thesis
    by (simp add: getDate_def getMonth_def getFullYear_def newDateYMD_day)
next
  case False
  with assms civil_overflow [of month year day] show ?thesis
    by (simp add: getDate_def getMonth_def getFullYear_def newDateYMD_day)
qed

lemma parseInt_digits: "isDigits s \<Longrightarrow> s \<noteq> [] \<Longrightarrow> \<exists>n. parseInt s = Some n"
  by (simp add: parseInt_def isDigits_def Let_def list_all_iff takeWhile_eq_all_conv[THEN iffD2])

lemma dateRegex_Some:
  "dateRegex s = Some (a, b, c) \<longleftrightarrow>
     splitOn CHR ''/'' s = [a, b, c] \<and> isDigits a \<and> 1 \<le> length a \<and> length a \<le> 2
       \<and> isDigits b \<and> 1 \<le> length b \<and> length b \<le> 2 \<and> isDigits c \<and> length c = 4"
  by (auto simp: dateRegex_def split: list.splits if_splits)

lemma parseBrazilianDate_Some:
  assumes "parseBrazilianDate v = Some t"
  shows "\<exists>s a b c day month year.
           v = JStr s \<and> dateRegex (filter (\<lambda>c. isDigit c \<or> c = CHR ''/'') s) = Some (a, b, c)
           \<and> parseInt a = Some day \<and> parseInt b = Some month \<and> parseInt c = Some year
           \<and> 1 \<le> day \<and> day \<le> 31 \<and> 1 \<le> month \<and> month \<le> 12 \<and> 1900 \<le> year \<and> year \<le> 2100
           \<and> getDate t = day \<and> getMonth t = month - 1 \<and> getFullYear t = year
           \<and> t = newDateYMD year (month - 1) day"
proof -
  from assms obtain s where v: "v = JStr s"
    by (cases v) (simp_all add: parseBrazilianDate_def)
  define cl where "cl = filter (\<lambda>c. isDigit c \<or> c = CHR ''/'') s"
  from assms v obtain a b c where re: "dateRegex cl = Some (a, b, c)"
    by (cases "dateRegex cl") (auto simp: parseBrazilianDate_def cl_def Let_def split: if_splits)
  from assms v re obtain day month year where
    p: "parseInt a = Some day" "parseInt b = Some month" "parseInt c = Some year"
    by (cases "parseInt a"; cases "parseInt b"; cases "parseInt c")
       (auto simp: parseBrazilianDate_def cl_def[symmetric] Let_def split: if_splits)
  from assms v re p have
    "1 \<le> day \<and> day \<le> 31 \<and> 1 \<le> month \<and> month \<le> 12 \<and> 1900 \<le> year \<and> year \<le> 2100
           \<and> getDate t = day \<and> getMonth t = month - 1 \<and> getFullYear t = year
           \<and> t = newDateYMD year (month - 1) day"
    by (auto simp: parseBrazilianDate_def cl_def[symmetric] Let_def split: if_splits)
  with v re p show ?thesis unfolding cl_def by blast
qed

lemma validateBirthDate_iff:
  "validateBirthDate today v \<longleftrightarrow>
     (\<exists>t. parseBrazilianDate v = Some t \<and> t \<le> today \<and> getFullYear today - getFullYear t \<le> 120)"
proof (cases "truthy v")
  case True
  then show ?thesis
    by (cases "parseBrazilianDate v") (auto simp: validateBirthDate_def Let_def)
next
  case False
  then have "parseBrazilianDate v = None" by (simp add: parseBrazilianDate_def)
  with False show ?thesis by (simp add: validateBirthDate_def)
qed

lemma parse_31_02_2023: "parseBrazilianDate (JStr ''31/02/2023'') = None"
  by code_simp

lemma parse_29_02_1990: "parseBrazilianDate (JStr ''29/02/1990'') = None"
  by code_simp

lemma parse_29_02_1996: "parseBrazilianDate (JStr ''29/02/1996'') = Some (newDateYMD 1996 1 29)"
  by code_simp

lemma year_29_02_1996: "getFullYear (newDateYMD 1996 1 29) = 1996"
  by code_simp

text \<open>
  Claim C4, as amended. \<open>validateBirthDate\<close> accepts an input only if it is a string
  that, once every character other than a digit or a slash is dropped, splits at its
  slashes into a day and a month of one or two digits and a year of four digits, with the
  day from 1 to 31, the month from 1 to 12, the year from 1900 to 2100, and the day
  existing in that month of that year, which is what the round trip through the date
  construction tests. So 31/02/2023 and 29/02/1990 are refused at any time, and 29/02/1996
  is accepted at any time from that day to the end of the year 2116.
\<close>

theorem validateBirthDate_accepts_only_calendar_dates:
  "(validateBirthDate today v \<longrightarrow>
      (\<exists>s a b c day month year.
          v = JStr s
        \<and> splitOn CHR ''/'' (filter (\<lambda>c. isDigit c \<or> c = CHR ''/'') s) = [a, b, c]
        \<and> isDigits a \<and> 1 \<le> length a \<and> length a \<le> 2
        \<and> isDigits b \<and> 1 \<le> length b \<and> length b \<le> 2
        \<and> isDigits c \<and> length c = 4
        \<and> parseInt a = Some day \<and> parseInt b = Some month \<and> parseInt c = Some year
        \<and> 1 \<le> day \<and> day \<le> 31 \<and> 1 \<le> month \<and> month \<le> 12 \<and> 1900 \<le> year \<and> year \<le> 2100
        \<and> day \<le> daysInMonth year month
        \<and> getDate (newDateYMD year (month - 1) day) = day
        \<and> getMonth (newDateYMD year (month - 1) day) = month - 1
        \<and> getFullYear (newDateYMD year (month - 1) day) = year))
   \<and> \<not> validateBirthDate today (JStr ''31/02/2023'')
   \<and> \<not> validateBirthDate today (JStr ''29/02/1990'')
   \<and> (newDateYMD 1996 1 29 \<le> today \<and> getFullYear today \<le> 2116
        \<longrightarrow> validateBirthDate today (JStr ''29/02/1996''))"
proof (intro conjI impI)
  assume "validateBirthDate today v"
  then obtain t where "parseBrazilianDate v = Some t"
    by (auto simp: validateBirthDate_iff)
  from parseBrazilianDate_Some [OF this]
  obtain s a b c day month year where
    v: "v = JStr s" and
    re: "dateRegex (filter (\<lambda>c. isDigit c \<or> c = CHR ''/'') s) = Some (a, b, c)" and
    p: "parseInt a = Some day" "parseInt b = Some month" "parseInt c = Some year" and
    r: "1 \<le> day" "day \<le> 31" "1 \<le> month" "month \<le> 12" "1900 \<le> year" "year \<le> 2100" and
    g: "getDate t = day" "getMonth t = month - 1" "getFullYear t = year" and
    t: "t = newDateYMD year (month - 1) day"
    by blast
  from g t roundtrip_iff [of month day year] r
  have dim: "day \<le> daysInMonth year month" by simp
  from re have form:
    "splitOn CHR ''/'' (filter (\<lambda>c. isDigit c \<or> c = CHR ''/'') s) = [a, b, c]
      \<and> isDigits a \<and> 1 \<le> length a \<and> length a \<le> 2
      \<and> isDigits b \<and> 1 \<le> length b \<and> length b \<le> 2 \<and> isDigits c \<and> length c = 4"
    by (simp add: dateRegex_Some)
  from v form p r dim g [unfolded t]
  show "\<exists>s a b c day month year.
          v = JStr s
        \<and> splitOn CHR ''/'' (filter (\<lambda>c. isDigit c \<or> c = CHR ''/'') s) = [a, b, c]
        \<and> isDigits a \<and> 1 \<le> length a \<and> length a \<le> 2
        \<and> isDigits b \<and> 1 \<le> length b \<and> length b \<le> 2
        \<and> isDigits c \<and> length c = 4
        \<and> parseInt a = Some day \<and> parseInt b = Some month \<and> parseInt c = Some year
        \<and> 1 \<le> day \<and> day \<le> 31 \<and> 1 \<le> month \<and> month \<le> 12 \<and> 1900 \<le> year \<and> year \<le> 2100
        \<and> day \<le> daysInMonth year month
        \<and> getDate (newDateYMD year (month - 1) day) = day
        \<and> getMonth (newDateYMD year (month - 1) day) = month - 1
        \<and> getFullYear (newDateYMD year (month - 1) day) = year"
    by blast
next
  show "\<not> validateBirthDate today (JStr ''31/02/2023'')"
    by (simp add: validateBirthDate_iff parse_31_02_2023)
next
  show "\<not> validateBirthDate today (JStr ''29/02/1990'')"
    by (simp add: validateBirthDate_iff parse_29_02_1990)
next
  assume "newDateYMD 1996 1 29 \<le> today \<and> getFullYear today \<le> 2116"
  then show "validateBirthDate today (JStr ''29/02/1996'')"
    by (simp add: validateBirthDate_iff parse_29_02_1996 year_29_02_1996)
qed

theorem validateBirthDate_accepts_only_calendar_dates_witness:
  "validateBirthDate (newDateYMD 2026 10 3) (JStr ''29/02/1996'')
   \<and> \<not> validateBirthDate (newDateYMD 2026 10 3) (JStr ''31/02/2023'')
   \<and> \<not> validateBirthDate (newDateYMD 2026 10 3) (JStr ''29/02/1990'')
   \<and> (\<exists>s a b c. JStr ''29/02/1996'' = JStr s
         \<and> splitOn CHR ''/'' (filter (\<lambda>c. isDigit c \<or> c = CHR ''/'') s) = [a, b, c])"
proof -
  have t: "newDateYMD 1996 1 29 \<le> newDateYMD 2026 10 3 \<and> getFullYear (newDateYMD 2026 10 3) \<le> 2116"
    by code_simp
  have a: "validateBirthDate (newDateYMD 2026 10 3) (JStr ''29/02/1996'')"
    using validateBirthDate_accepts_only_calendar_dates
            [of "newDateYMD 2026 10 3" "JStr ''29/02/1996''"] t
    by blast
  with validateBirthDate_accepts_only_calendar_dates
         [of "newDateYMD 2026 10 3" "JStr ''29/02/1996''"]
  show ?thesis by blast
qed

text \<open>
  The claim as it is written fails: the input \<open>x1/1/2000\<close> is not in the form DD/MM/YYYY
  and is accepted, here on 3 November 2026.
\<close>

theorem validateBirthDate_accepts_other_forms:
  "validateBirthDate (newDateYMD 2026 10 3) (JStr ''x1/1/2000'') \<and> \<not> isDDMMYYYY ''x1/1/2000''"
  by code_simp


text \<open>
  The parts of the rule on the age that the code keeps: a date after today is refused, an
  age of more than 120 whole years is refused, and a date up to today is accepted when
  the calendar years are at most 120 apart; so are today and the day 120 years ago.
\<close>

lemma ageInWholeYears_le: "ageInWholeYears t today \<le> getFullYear today - getFullYear t"
  by (simp add: ageInWholeYears_def)

lemma validateBirthDate_parts:
  assumes "parseBrazilianDate v = Some t"
  shows "today < t \<Longrightarrow> \<not> validateBirthDate today v"
    and "120 < ageInWholeYears t today \<Longrightarrow> \<not> validateBirthDate today v"
    and "t \<le> today \<Longrightarrow> getFullYear today - getFullYear t \<le> 120 \<Longrightarrow> validateBirthDate today v"
  using assms ageInWholeYears_le [of t today] by (auto simp: validateBirthDate_iff)

lemma validateBirthDate_today_and_120_years_ago:
  "validateBirthDate (newDateYMD 2026 10 3) (JStr ''03/11/2026'')
   \<and> validateBirthDate (newDateYMD 2026 10 3) (JStr ''03/11/1906'')
   \<and> ageInWholeYears (newDateYMD 1906 10 3) (newDateYMD 2026 10 3) = 120"
  by code_simp

text \<open>
  Claim C3. The claim promises that a birth date in the past is accepted while the age in
  whole years is at most 120. The code compares the difference of the calendar years
  instead. On 3 November 2026 someone born on 31 December 1905 is 120 years old, the
  birthday of 2026 being still to come; the string parses, the date is in the past, and
  \<open>validateBirthDate\<close> refuses it because 2026 - 1905 = 121.
\<close>

theorem validateBirthDate_refuses_age_of_120_years:
  "parseBrazilianDate (JStr ''31/12/1905'') = Some (newDateYMD 1905 11 31)
   \<and> newDateYMD 1905 11 31 \<le> newDateYMD 2026 10 3
   \<and> ageInWholeYears (newDateYMD 1905 11 31) (newDateYMD 2026 10 3) = 120
   \<and> getFullYear (newDateYMD 2026 10 3) - getFullYear (newDateYMD 1905 11 31) = 121
   \<and> \<not> validateBirthDate (newDateYMD 2026 10 3) (JStr ''31/12/1905'')"
  by code_simp

theorem validateBirthDate_refuses_age_of_120_years_witness:
  "\<not> validateBirthDate (newDateYMD 2026 10 3) (JStr ''31/12/1905'')
   \<and> ageInWholeYears (newDateYMD 1905 11 31) (newDateYMD 2026 10 3) = 120"
  using validateBirthDate_refuses_age_of_120_years by simp

section \<open>Serialising a Person\<close>

lemma upperChar_fixed: "c' \<in> set (upperChar c) \<Longrightarrow> upperChar c' = [c']"
proof -
  assume a: "c' \<in> set (upperChar c)"
  define n where "n = (of_char c :: int)"
  have n256: "n < 256"
    unfolding n_def using nat_of_char_less_256 [of c] by (simp add: of_char_def)
  consider (low) "(97 \<le> n \<and> n \<le> 122) \<or> (224 \<le> n \<and> n \<le> 246) \<or> (248 \<le> n \<and> n \<le> 254)"
    | (ss) "\<not> ((97 \<le> n \<and> n \<le> 122) \<or> (224 \<le> n \<and> n \<le> 246) \<or> (248 \<le> n \<and> n \<le> 254))" "n = 223"
    | (other) "\<not> ((97 \<le> n \<and> n \<le> 122) \<or> (224 \<le> n \<and> n \<le> 246) \<or> (248 \<le> n \<and> n \<le> 254))" "n \<noteq> 223"
    by blast
  then show ?thesis
  proof cases
    case low
    then have c': "c' = char_of (n - 32)" using a by (simp add: upperChar_def n_def[symmetric])
    from low n256 have "0 \<le> n - 32" "n - 32 < 256" by auto
    then have "(of_char c' :: int) = n - 32" by (simp add: c')
    with low show ?thesis by (auto simp: upperChar_def Let_def)
  next
    case ss
    then have "c' = CHR ''S''" using a by (simp add: upperChar_def n_def[symmetric])
    then show ?thesis by (simp add: upperChar_def)
  next
    case other
    then have "c' = c" using a by (auto simp: upperChar_def n_def[symmetric] split: if_splits)
    with other show ?thesis by (auto simp: upperChar_def n_def[symmetric])
  qed
qed

lemma toUpperCase_fixed: "(\<And>c. c \<in> set s \<Longrightarrow> upperChar c = [c]) \<Longrightarrow> toUpperCase s = s"
  by (induction s) (simp_all add: toUpperCase_def)

lemma toUpperCase_Nil: "toUpperCase [] = []"
  by (simp add: toUpperCase_def)

lemma toUpperCase_idem: "toUpperCase (toUpperCase s) = toUpperCase s"
proof (rule toUpperCase_fixed)
  fix c assume "c \<in> set (toUpperCase s)"
  then obtain c0 where "c \<in> set (upperChar c0)" by (auto simp: toUpperCase_def)
  then show "upperChar c = [c]" by (rule upperChar_fixed)
qed

lemma fromJSON_toJSON: "isRecord r \<Longrightarrow> fromJSON e (toJSON r) = Inr r"
  by (simp add: isRecord_def fromJSON_def toJSON_def withProp_def newPerson_def)

lemma newPerson_isRecord: "newPerson e n d t m = Inr p \<Longrightarrow> isRecord p"
  by (cases n) (auto simp: newPerson_def isRecord_def generateId_def toUpperCase_idem toUpperCase_Nil
           split: if_splits)

lemma fromJSON_isRecord:
  assumes "fromJSON e data = Inr p"
  shows "isRecord p"
proof -
  from assms obtain n d t m i c u q where
    q: "newPerson e n d t m = Inr q" and
    p: "p = q \<lparr> personId := (if truthy i then i else personId q),
                    createdAt := (if truthy c then newDate c else createdAt q),
                    updatedAt := (if truthy u then newDate u else updatedAt q) \<rparr>"
    by (auto simp: fromJSON_def withProp_def split: sum.splits)
  from newPerson_isRecord [OF q] show ?thesis
    by (simp add: p isRecord_def)
qed

lemma update_isRecord:
  assumes "update e data p = Inr p'" "isRecord p"
  shows "isRecord p'"
  using assms
  by (auto simp: update_def withProp_def isRecord_def toUpperCase_idem
           split: sum.splits if_splits jsval.splits)

text \<open>
  Claim C5. A Record that the \<open>Person\<close> class has made (by its constructor, by
  \<open>update\<close> or by \<open>fromJSON\<close>: the three keep \<open>isRecord\<close>) comes back from
  \<open>Person.fromJSON(r.toJSON())\<close> equal in every field: identifier, name, birth date,
  phone, email and the two stamps. The clock and the random digits that \<open>fromJSON\<close>
  draws for the object it builds first leave no trace.
\<close>

theorem fromJSON_toJSON_round_trip:
  "(isRecord r \<longrightarrow> fromJSON e (toJSON r) = Inr r)
   \<and> (newPerson e n d t m = Inr p1 \<longrightarrow> isRecord p1)
   \<and> (update e data r = Inr p2 \<and> isRecord r \<longrightarrow> isRecord p2)
   \<and> (fromJSON e data = Inr p3 \<longrightarrow> isRecord p3)"
  using fromJSON_toJSON [of r e] newPerson_isRecord [of e n d t m p1]
        update_isRecord [of e data r p2] fromJSON_isRecord [of e data p3]
  by blast

theorem fromJSON_toJSON_round_trip_witness:
  "newPerson \<lparr> now = 1793664000000, random = ''k3x9q0a1z'' \<rparr>
       (JStr ''Ana Lima'') (JStr ''10/05/1995'') (JStr ''(21) 98888-7777'') (JStr ''ana@x.com'')
     = Inr \<lparr> personId = JStr ''person_1793664000000_k3x9q0a1z'', nome = ''ANA LIMA'',
             dataNascimento = JStr ''10/05/1995'', telefone = JStr ''(21) 98888-7777'',
             email = JStr ''ana@x.com'', createdAt = Some 1793664000000,
             updatedAt = Some 1793664000000 \<rparr>
   \<and> fromJSON \<lparr> now = 1793750400000, random = ''zzzzzzzzz'' \<rparr>
       (toJSON \<lparr> personId = JStr ''person_1793664000000_k3x9q0a1z'', nome = ''ANA LIMA'',
                 dataNascimento = JStr ''10/05/1995'', telefone = JStr ''(21) 98888-7777'',
                 email = JStr ''ana@x.com'', createdAt = Some 1793664000000,
                 updatedAt = Some 1793664000000 \<rparr>)
     = Inr \<lparr> personId = JStr ''person_1793664000000_k3x9q0a1z'', nome = ''ANA LIMA'',
             dataNascimento = JStr ''10/05/1995'', telefone = JStr ''(21) 98888-7777'',
             email = JStr ''ana@x.com'', createdAt = Some 1793664000000,
             updatedAt = Some 1793664000000 \<rparr>"
proof -
  let ?e = "\<lparr> now = 1793664000000, random = ''k3x9q0a1z'' \<rparr>"
  let ?r = "\<lparr> personId = JStr ''person_1793664000000_k3x9q0a1z'', nome = ''ANA LIMA'',
             dataNascimento = JStr ''10/05/1995'', telefone = JStr ''(21) 98888-7777'',
             email = JStr ''ana@x.com'', createdAt = Some 1793664000000,
             updatedAt = Some (1793664000000 :: int) \<rparr>"
  have made: "newPerson ?e (JStr ''Ana Lima'') (JStr ''10/05/1995'') (JStr ''(21) 98888-7777'')
                (JStr ''ana@x.com'') = Inr ?r"
    by code_simp
  have rec: "isRecord ?r"
    using fromJSON_toJSON_round_trip
            [where e = ?e and n = "JStr ''Ana Lima''" and d = "JStr ''10/05/1995''"
               and t = "JStr ''(21) 98888-7777''" and m = "JStr ''ana@x.com''" and ?p1.0 = ?r]
          made
    by blast
  from fromJSON_toJSON_round_trip
         [where r = ?r and e = "\<lparr> now = 1793750400000, random = ''zzzzzzzzz'' \<rparr>"] rec
  have "fromJSON \<lparr> now = 1793750400000, random = ''zzzzzzzzz'' \<rparr> (toJSON ?r) = Inr ?r"
    by blast
  with made show ?thesis by simp
qed


section \<open>The storage manager\<close>

lemma map_of_putItem_same: "map_of (putItem k v its) k = Some v"
  by (induction its) auto

lemma map_of_putItem_other: "k' \<noteq> k \<Longrightarrow> map_of (putItem k v its) k' = map_of its k'"
  by (induction its) auto

lemma setItem_frame:
  assumes "setItem k v s = Inr s'"
  shows "persons s' = persons s" "arrays s' = arrays s" "nextRef s' = nextRef s"
    "quota s' = quota s" "getItem k s' = Some v" "k' \<noteq> k \<Longrightarrow> getItem k' s' = getItem k' s"
  using assms
  by (auto simp: setItem_def Let_def getItem_def map_of_putItem_same map_of_putItem_other
           split: if_splits)

lemma setItem_fails: "setItem k v s = Inl n \<Longrightarrow> n = QuotaExceededError"
  by (auto simp: setItem_def Let_def split: if_splits)

lemma keys_differ: "storageKey \<noteq> backupKey"
  by (simp add: storageKey_def backupKey_def)

lemma createBackup_frame:
  assumes "createBackup e d s = (r, s')"
  shows "persons s' = persons s \<and> arrays s' = arrays s \<and> nextRef s' = nextRef s
         \<and> quota s' = quota s \<and> getItem storageKey s' = getItem storageKey s"
proof (cases "\<exists>s1. s' = s1 \<and> (\<exists>v. storeJSON backupKey v s = Inr s1)")
  case True
  then obtain v where "setItem backupKey (Json (jsonClone v)) s = Inr s'"
    by (auto simp: storeJSON_def)
  from setItem_frame [OF this] keys_differ show ?thesis by simp
next
  case False
  with assms have "s' = s"
    by (auto simp: createBackup_def Let_def split: if_splits sum.splits jsval.splits)
  then show ?thesis by simp
qed

lemma autoBackup_frame:
  "persons (autoBackup e d s) = persons s \<and> arrays (autoBackup e d s) = arrays s
   \<and> nextRef (autoBackup e d s) = nextRef s \<and> quota (autoBackup e d s) = quota s
   \<and> getItem storageKey (autoBackup e d s) = getItem storageKey s"
proof -
  have "autoBackup e d s = s \<or> autoBackup e d s = snd (createBackup e d s)"
    by (auto simp: autoBackup_def split: sum.splits)
  then show ?thesis
    using createBackup_frame [of e d s "fst (createBackup e d s)" "snd (createBackup e d s)"]
    by auto
qed

lemma getPersons_cong:
  "persons s' = persons s \<Longrightarrow> arrays s' = arrays s \<Longrightarrow> getPersons s' = getPersons s"
  by (simp add: getPersons_def)

lemma savePersons_frame:
  assumes "savePersons e s = (r, s')"
  shows "persons s' = persons s" "arrays s' = arrays s" "nextRef s' = nextRef s"
    "quota s' = quota s" "getPersons s' = getPersons s"
proof -
  let ?a = "autoBackup e (JArr (map toJSON (getPersons s))) s"
  have "s' = ?a \<or> storeJSON storageKey (JArr (map toJSON (getPersons s))) ?a = Inr s'"
    using assms by (auto simp: savePersons_def Let_def split: sum.splits if_splits)
  then have "persons s' = persons s \<and> arrays s' = arrays s \<and> nextRef s' = nextRef s
      \<and> quota s' = quota s"
    using autoBackup_frame [of e "JArr (map toJSON (getPersons s))" s]
    by (auto simp: storeJSON_def dest: setItem_frame)
  then show "persons s' = persons s" "arrays s' = arrays s" "nextRef s' = nextRef s"
    "quota s' = quota s" "getPersons s' = getPersons s"
    by (simp_all add: getPersons_def)
qed

lemma savePersons_fails:
  assumes "savePersons e s = (Inl err, s')"
  shows "err = AppError StorageFull STORAGE_QUOTA_ERROR (Some (Native QuotaExceededError))"
    and "getItem storageKey s' = getItem storageKey s"
proof -
  let ?d = "JArr (map toJSON (getPersons s))"
  let ?a = "autoBackup e ?d s"
  from assms obtain n where n: "storeJSON storageKey ?d ?a = Inl n" and s': "s' = ?a"
    by (auto simp: savePersons_def Let_def split: sum.splits if_splits)
  from n have "n = QuotaExceededError" by (auto simp: storeJSON_def dest: setItem_fails)
  with assms n show "err = AppError StorageFull STORAGE_QUOTA_ERROR (Some (Native QuotaExceededError))"
    by (simp add: savePersons_def Let_def)
  from s' autoBackup_frame [of e ?d s] show "getItem storageKey s' = getItem storageKey s"
    by simp
qed

lemma savePersons_succeeds:
  assumes "savePersons e s = (Inr u, s')"
  shows "getItem storageKey s' = Some (Json (jsonClone (JArr (map toJSON (getPersons s)))))"
  using assms
  by (auto simp: savePersons_def Let_def storeJSON_def split: sum.splits if_splits
           dest: setItem_frame(5))

lemma getPersons_setPersons: "getPersons (setPersons ps s) = ps"
  by (simp add: getPersons_def setPersons_def)

lemma setPersons_items: "getItem k (setPersons ps s) = getItem k s"
  by (simp add: getItem_def setPersons_def)

lemma rethrow_AppError: "rethrow m t (AppError m' t' c) = AppError m' t' c"
  by (simp add: rethrow_def)

lemma addPerson_fails:
  assumes "addPerson e a s = (Inl err, s')"
  shows "((etype err = Some VALIDATION_ERROR \<or> etype err = Some DUPLICATE_ERROR) \<and> s' = s)
       \<or> (etype err = Some STORAGE_QUOTA_ERROR
           \<and> (\<exists>p. a = Instance p \<and> getPersons s' = getPersons s @ [p])
           \<and> getItem storageKey s' = getItem storageKey s)"
proof (cases a)
  case (Other v)
  with assms show ?thesis by (auto simp: addPerson_def rethrow_AppError)
next
  case (Instance p)
  show ?thesis
  proof (cases "isValid (validate (now e) p) \<and> \<not> isDuplicate p (- 1) s")
    case False
    with assms Instance show ?thesis
      by (auto simp: addPerson_def Let_def rethrow_AppError split: if_splits)
  next
    case True
    let ?s1 = "setPersons (getPersons s @ [p]) s"
    from assms Instance True obtain err0 where
      sv: "savePersons e ?s1 = (Inl err0, s')" and err: "err = rethrow AddFailed STORAGE_ERROR err0"
      by (auto simp: addPerson_def Let_def split: prod.splits sum.splits)
    from savePersons_fails [OF sv] savePersons_frame(5) [OF sv] err Instance
    show ?thesis
      by (simp add: rethrow_AppError getPersons_setPersons setPersons_items)
  qed
qed

lemma updatePerson_fails:
  assumes "updatePerson e i a s = (Inl err, s')"
  shows "((etype err = Some VALIDATION_ERROR \<or> etype err = Some DUPLICATE_ERROR) \<and> s' = s)
       \<or> (etype err = Some STORAGE_QUOTA_ERROR
           \<and> (\<exists>p. a = Instance p \<and> 0 \<le> i \<and> i < int (length (getPersons s))
                 \<and> getPersons s' =
                     (getPersons s)[nat i := p \<lparr> personId := personId (getPersons s ! nat i),
                                                 createdAt := createdAt (getPersons s ! nat i),
                                                 updatedAt := Some (now e) \<rparr>])
           \<and> getItem storageKey s' = getItem storageKey s)"
proof (cases "i < 0 \<or> i \<ge> int (length (getPersons s))")
  case True
  with assms show ?thesis by (auto simp: updatePerson_def rethrow_AppError)
next
  case range: False
  show ?thesis
  proof (cases a)
    case (Other v)
    with assms range show ?thesis by (auto simp: updatePerson_def rethrow_AppError)
  next
    case (Instance p)
    show ?thesis
    proof (cases "isValid (validate (now e) p) \<and> \<not> isDuplicate p i s")
      case False
      with assms Instance range show ?thesis
        by (auto simp: updatePerson_def Let_def rethrow_AppError split: if_splits)
    next
      case True
      let ?p = "p \<lparr> personId := personId (getPersons s ! nat i),
                     createdAt := createdAt (getPersons s ! nat i),
                     updatedAt := Some (now e) \<rparr>"
      let ?s1 = "setPersons ((getPersons s)[nat i := ?p]) s"
      from assms Instance True range obtain err0 where
        sv: "savePersons e ?s1 = (Inl err0, s')"
        and err: "err = rethrow UpdateFailed STORAGE_ERROR err0"
        by (auto simp: updatePerson_def Let_def split: prod.splits sum.splits)
      from savePersons_fails [OF sv] savePersons_frame(5) [OF sv] err Instance range
      show ?thesis
        by (simp add: rethrow_AppError getPersons_setPersons setPersons_items)
    qed
  qed
qed

lemma deletePerson_fails:
  assumes "deletePerson e i s = (Inl err, s')"
  shows "(etype err = Some VALIDATION_ERROR \<and> s' = s)
       \<or> (etype err = Some STORAGE_QUOTA_ERROR
           \<and> 0 \<le> i \<and> i < int (length (getPersons s))
           \<and> getPersons s' = take (nat i) (getPersons s) @ drop (nat i + 1) (getPersons s)
           \<and> getItem storageKey s' = getItem storageKey s)"
proof (cases "i < 0 \<or> i \<ge> int (length (getPersons s))")
  case True
  with assms show ?thesis by (auto simp: deletePerson_def rethrow_AppError)
next
  case range: False
  let ?s1 = "setPersons (take (nat i) (getPersons s) @ drop (nat i + 1) (getPersons s)) s"
  from assms range obtain err0 where
    sv: "savePersons e ?s1 = (Inl err0, s')"
    and err: "err = rethrow RemoveFailed STORAGE_ERROR err0"
    by (auto simp: deletePerson_def Let_def split: prod.splits sum.splits)
  from savePersons_fails [OF sv] savePersons_frame(5) [OF sv] err range
  show ?thesis
    by (simp add: rethrow_AppError getPersons_setPersons setPersons_items)
qed

text \<open>
  Claim C1, as amended. When \<open>addPerson\<close>, \<open>updatePerson\<close> or \<open>deletePerson\<close> fails with
  a validation error (an argument that is no \<open>Person\<close>, a failed validation, an index
  out of range) or with a duplicate error, the state after the call is the state before
  it. When the call fails because the write to the backing store fails, the collection in
  memory is not rolled back: it holds the attempted change (the record added, the record
  replaced, the record taken out), while the collection stored under \<open>listaPessoas\<close> is
  the one from before.
\<close>

theorem failed_mutation_keeps_or_applies_change:
  "(addPerson e a s = (Inl err, s') \<longrightarrow>
      ((etype err = Some VALIDATION_ERROR \<or> etype err = Some DUPLICATE_ERROR) \<and> s' = s)
      \<or> (etype err = Some STORAGE_QUOTA_ERROR
          \<and> (\<exists>p. a = Instance p \<and> getPersons s' = getPersons s @ [p])
          \<and> getItem storageKey s' = getItem storageKey s))
   \<and> (updatePerson e i a s = (Inl err, s') \<longrightarrow>
      ((etype err = Some VALIDATION_ERROR \<or> etype err = Some DUPLICATE_ERROR) \<and> s' = s)
      \<or> (etype err = Some STORAGE_QUOTA_ERROR
          \<and> (\<exists>p. a = Instance p \<and> 0 \<le> i \<and> i < int (length (getPersons s))
                \<and> getPersons s' =
                    (getPersons s)[nat i := p \<lparr> personId := personId (getPersons s ! nat i),
                                                createdAt := createdAt (getPersons s ! nat i),
                                                updatedAt := Some (now e) \<rparr>])
          \<and> getItem storageKey s' = getItem storageKey s))
   \<and> (deletePerson e i s = (Inl err, s') \<longrightarrow>
      (etype err = Some VALIDATION_ERROR \<and> s' = s)
      \<or> (etype err = Some STORAGE_QUOTA_ERROR
          \<and> 0 \<le> i \<and> i < int (length (getPersons s))
          \<and> getPersons s' = take (nat i) (getPersons s) @ drop (nat i + 1) (getPersons s)
          \<and> getItem storageKey s' = getItem storageKey s))"
  using addPerson_fails [of e a s err s'] updatePerson_fails [of e i a s err s']
        deletePerson_fails [of e i s err s']
  by blast

theorem failed_mutation_keeps_or_applies_change_witness:
  "snd (addPerson clock0 (Other JNull) (emptyPage 0)) = emptyPage 0
   \<and> getPersons (snd (addPerson clock0 (Instance ana) (emptyPage 0))) = [ana]
   \<and> getItem storageKey (snd (addPerson clock0 (Instance ana) (emptyPage 0))) = None"
proof -
  let ?full = "AppError StorageFull STORAGE_QUOTA_ERROR (Some (Native QuotaExceededError))"
  let ?bad = "AppError InvalidPersonObject VALIDATION_ERROR None"
  have r1: "fst (addPerson clock0 (Other JNull) (emptyPage 0)) = Inl ?bad" by code_simp
  have r2: "fst (addPerson clock0 (Instance ana) (emptyPage 0)) = Inl ?full" by code_simp
  have e1: "etype ?bad = Some VALIDATION_ERROR" "etype ?bad \<noteq> Some STORAGE_QUOTA_ERROR"
    by simp_all
  have e2: "etype ?full = Some STORAGE_QUOTA_ERROR" "etype ?full \<noteq> Some VALIDATION_ERROR"
    "etype ?full \<noteq> Some DUPLICATE_ERROR" by simp_all
  have before: "getPersons (emptyPage 0) = []" "getItem storageKey (emptyPage 0) = None"
    by code_simp+
  from failed_mutation_keeps_or_applies_change
         [of clock0 "Other JNull" "emptyPage 0" ?bad
             "snd (addPerson clock0 (Other JNull) (emptyPage 0))"] r1 e1
  have a: "snd (addPerson clock0 (Other JNull) (emptyPage 0)) = emptyPage 0"
    by (metis prod.collapse)
  from failed_mutation_keeps_or_applies_change
         [of clock0 "Instance ana" "emptyPage 0" ?full
             "snd (addPerson clock0 (Instance ana) (emptyPage 0))"] r2 e2
  have "(\<exists>p. Instance ana = Instance p
            \<and> getPersons (snd (addPerson clock0 (Instance ana) (emptyPage 0)))
                = getPersons (emptyPage 0) @ [p])
        \<and> getItem storageKey (snd (addPerson clock0 (Instance ana) (emptyPage 0)))
            = getItem storageKey (emptyPage 0)"
    by (metis prod.collapse)
  with before a show ?thesis by auto
qed

text \<open>
  The claim as it is written fails: with the store full, \<open>addPerson\<close> fails in the write,
  and the collection in memory, empty before, holds the new record afterwards.
\<close>

theorem failed_persist_changes_collection:
  "fst (addPerson clock0 (Instance ana) (emptyPage 0))
     = Inl (AppError StorageFull STORAGE_QUOTA_ERROR (Some (Native QuotaExceededError)))
   \<and> getPersons (emptyPage 0) = []
   \<and> getPersons (snd (addPerson clock0 (Instance ana) (emptyPage 0))) = [ana]"
  by code_simp


lemma updatePerson_succeeds:
  assumes "updatePerson e i a s = (Inr b, s')"
  shows "\<exists>p. a = Instance p \<and> 0 \<le> i \<and> i < int (length (getPersons s))
           \<and> isValid (validate (now e) p) \<and> \<not> isDuplicate p i s
           \<and> getPersons s' =
                (getPersons s)[nat i := p \<lparr> personId := personId (getPersons s ! nat i),
                                            createdAt := createdAt (getPersons s ! nat i),
                                            updatedAt := Some (now e) \<rparr>]"
proof -
  from assms have range: "\<not> (i < 0 \<or> i \<ge> int (length (getPersons s)))"
    by (auto simp: updatePerson_def split: if_splits)
  from assms range obtain p where a: "a = Instance p"
    by (cases a) (auto simp: updatePerson_def)
  from assms range a have v: "isValid (validate (now e) p) \<and> \<not> isDuplicate p i s"
    by (auto simp: updatePerson_def Let_def split: if_splits)
  let ?p = "p \<lparr> personId := personId (getPersons s ! nat i),
                 createdAt := createdAt (getPersons s ! nat i),
                 updatedAt := Some (now e) \<rparr>"
  from assms range a v obtain u where
    sv: "savePersons e (setPersons ((getPersons s)[nat i := ?p]) s) = (Inr u, s')"
    by (auto simp: updatePerson_def Let_def split: prod.splits sum.splits)
  from savePersons_frame(5) [OF sv] range a v show ?thesis
    by (simp add: getPersons_setPersons)
qed

text \<open>
  Claim C6, as amended. After \<open>updatePerson(i, newRecord)\<close> has succeeded, the index was
  in range, the collection has the length it had, the record at index \<open>i\<close> has the
  identifier and the \<open>createdAt\<close> of the record that was there, the four fields of the new
  record, and as \<open>updatedAt\<close> the reading of the clock taken by the update; the records
  at all other indices are the ones from before. The new \<open>updatedAt\<close> is therefore
  strictly later than the old one exactly when the clock has moved past the old stamp.
\<close>

theorem updatePerson_preserves_identity:
  "updatePerson e i a s = (Inr b, s') \<longrightarrow>
     0 \<le> i \<and> i < int (length (getPersons s))
     \<and> length (getPersons s') = length (getPersons s)
     \<and> personId (getPersons s' ! nat i) = personId (getPersons s ! nat i)
     \<and> createdAt (getPersons s' ! nat i) = createdAt (getPersons s ! nat i)
     \<and> updatedAt (getPersons s' ! nat i) = Some (now e)
     \<and> (\<exists>p. a = Instance p
            \<and> nome (getPersons s' ! nat i) = nome p
            \<and> dataNascimento (getPersons s' ! nat i) = dataNascimento p
            \<and> telefone (getPersons s' ! nat i) = telefone p
            \<and> email (getPersons s' ! nat i) = email p)
     \<and> (\<forall>j. j < length (getPersons s) \<and> j \<noteq> nat i \<longrightarrow> getPersons s' ! j = getPersons s ! j)
     \<and> (\<forall>t. updatedAt (getPersons s ! nat i) = Some t \<longrightarrow>
            ((\<exists>t'. updatedAt (getPersons s' ! nat i) = Some t' \<and> t < t') \<longleftrightarrow> t < now e))"
proof
  assume "updatePerson e i a s = (Inr b, s')"
  from updatePerson_succeeds [OF this] obtain p where
    a: "a = Instance p" and r: "0 \<le> i" "i < int (length (getPersons s))" and
    g: "getPersons s' =
          (getPersons s)[nat i := p \<lparr> personId := personId (getPersons s ! nat i),
                                      createdAt := createdAt (getPersons s ! nat i),
                                      updatedAt := Some (now e) \<rparr>]"
    by blast
  from r have n: "nat i < length (getPersons s)" by simp
  show "0 \<le> i \<and> i < int (length (getPersons s))
     \<and> length (getPersons s') = length (getPersons s)
     \<and> personId (getPersons s' ! nat i) = personId (getPersons s ! nat i)
     \<and> createdAt (getPersons s' ! nat i) = createdAt (getPersons s ! nat i)
     \<and> updatedAt (getPersons s' ! nat i) = Some (now e)
     \<and> (\<exists>p. a = Instance p
            \<and> nome (getPersons s' ! nat i) = nome p
            \<and> dataNascimento (getPersons s' ! nat i) = dataNascimento p
            \<and> telefone (getPersons s' ! nat i) = telefone p
            \<and> email (getPersons s' ! nat i) = email p)
     \<and> (\<forall>j. j < length (getPersons s) \<and> j \<noteq> nat i \<longrightarrow> getPersons s' ! j = getPersons s ! j)
     \<and> (\<forall>t. updatedAt (getPersons s ! nat i) = Some t \<longrightarrow>
            ((\<exists>t'. updatedAt (getPersons s' ! nat i) = Some t' \<and> t < t') \<longleftrightarrow> t < now e))"
    using a r n by (simp add: g)
qed

theorem updatePerson_preserves_identity_witness:
  "personId (getPersons (snd (updatePerson clock1 0 (Instance bia)
        (snd (addPerson clock0 (Instance ana) (emptyPage 5000000))))) ! 0)
     = personId (getPersons (snd (addPerson clock0 (Instance ana) (emptyPage 5000000))) ! 0)
   \<and> createdAt (getPersons (snd (updatePerson clock1 0 (Instance bia)
        (snd (addPerson clock0 (Instance ana) (emptyPage 5000000))))) ! 0)
     = createdAt (getPersons (snd (addPerson clock0 (Instance ana) (emptyPage 5000000))) ! 0)
   \<and> updatedAt (getPersons (snd (updatePerson clock1 0 (Instance bia)
        (snd (addPerson clock0 (Instance ana) (emptyPage 5000000))))) ! 0)
     = Some (now clock1)"
proof -
  let ?s = "snd (addPerson clock0 (Instance ana) (emptyPage 5000000))"
  have "fst (updatePerson clock1 0 (Instance bia) ?s) = Inr True" by code_simp
  then have "updatePerson clock1 0 (Instance bia) ?s
               = (Inr True, snd (updatePerson clock1 0 (Instance bia) ?s))"
    by (metis prod.collapse)
  with updatePerson_preserves_identity
         [of clock1 0 "Instance bia" ?s True "snd (updatePerson clock1 0 (Instance bia) ?s)"]
  show ?thesis by simp
qed

text \<open>
  The claim as it is written fails: a record added and then updated within the same
  millisecond keeps its \<open>updatedAt\<close>; the new stamp is not strictly later.
\<close>

theorem updatePerson_same_millisecond:
  "fst (updatePerson clock0 0 (Instance bia)
          (snd (addPerson clock0 (Instance ana) (emptyPage 5000000)))) = Inr True
   \<and> updatedAt (getPersons (snd (addPerson clock0 (Instance ana) (emptyPage 5000000))) ! 0)
       = Some 1793664000000
   \<and> updatedAt (getPersons (snd (updatePerson clock0 0 (Instance bia)
          (snd (addPerson clock0 (Instance ana) (emptyPage 5000000))))) ! 0)
       = Some 1793664000000"
  by code_simp


section \<open>Arrays handed to the caller\<close>













section \<open>Import\<close>

lemma getProp_notNull: "notNull v \<Longrightarrow> \<exists>x. getProp v k = Inr x"
  by (cases v) (simp_all add: notNull_def)

lemma itemErrors_ok:
  assumes "notNull item"
  shows "\<exists>errs. itemErrors i item = Inr errs \<and> (errs = [] \<longleftrightarrow> entryOk item)"
proof -
  obtain n m t d where g: "getProp item ''nome'' = Inr n" "getProp item ''email'' = Inr m"
      "getProp item ''telefone'' = Inr t" "getProp item ''dataNascimento'' = Inr d"
    using getProp_notNull [OF assms] by meson
  have e: "\<And>v. (\<not> truthy v \<or> \<not> isString v) \<longleftrightarrow> \<not> (case v of JStr s \<Rightarrow> s \<noteq> [] | _ \<Rightarrow> False)"
    by (case_tac v) simp_all
  show ?thesis
    by (auto simp: itemErrors_def g entryOk_def nonEmptyString_def e split: jsval.splits)
qed

lemma checkItems_counts:
  assumes "list_all notNull xs"
  shows "\<exists>r'. checkItems i xs r = Inr r'
           \<and> validRecords r' = validRecords r + length (filter entryOk xs)
           \<and> invalidRecords r' = invalidRecords r + length (filter (\<lambda>x. \<not> entryOk x) xs)
           \<and> (problems r' = [] \<longleftrightarrow> problems r = [] \<and> list_all entryOk xs)
           \<and> ok r' = ok r \<and> warnings r' = warnings r"
  using assms
proof (induction xs arbitrary: i r)
  case Nil
  then show ?case by simp
next
  case (Cons x xs)
  then have nn: "notNull x" and rest: "list_all notNull xs" by simp_all
  from itemErrors_ok [OF nn] obtain errs where
    ie: "itemErrors i x = Inr errs" and em: "errs = [] \<longleftrightarrow> entryOk x" by blast
  show ?case
  proof (cases "entryOk x")
    case True
    with em have "errs = []" by simp
    with Cons.IH [OF rest, of "i + 1" "r \<lparr> validRecords := validRecords r + 1 \<rparr>"] ie True
    show ?thesis by auto
  next
    case False
    with em have ne: "errs \<noteq> []" by simp
    with Cons.IH [OF rest, of "i + 1" "r \<lparr> invalidRecords := invalidRecords r + 1,
                           problems := problems r @ errs \<rparr>"] ie False
    show ?thesis by auto
  qed
qed

lemma validateImportData_counts:
  assumes "list_all notNull xs"
  shows "\<exists>r. validateImportData (JArr xs) = Inr r
           \<and> validRecords r = length (filter entryOk xs)
           \<and> invalidRecords r = length (filter (\<lambda>x. \<not> entryOk x) xs)
           \<and> (ok r \<longleftrightarrow> list_all entryOk xs)"
proof -
  let ?r0 = "\<lparr> ok = True, problems = [], warnings = [], validRecords = 0, invalidRecords = 0 \<rparr>"
  from checkItems_counts [OF assms, of 0 ?r0] obtain r' where
    c: "checkItems 0 xs ?r0 = Inr r'" and
    v: "validRecords r' = length (filter entryOk xs)" and
    i: "invalidRecords r' = length (filter (\<lambda>x. \<not> entryOk x) xs)" and
    p: "problems r' = [] \<longleftrightarrow> list_all entryOk xs" and
    o: "ok r'" by auto
  show ?thesis
    using c v i p o by (auto simp: validateImportData_def Let_def)
qed

lemma entryOk_notNull: "entryOk item \<Longrightarrow> notNull item"
  by (cases item) (simp_all add: entryOk_def nonEmptyString_def notNull_def)

lemma fromJSON_entryOk:
  assumes "entryOk d"
  shows "\<exists>p. fromJSON e d = Inr p"
proof -
  from assms obtain n where n: "getProp d ''nome'' = Inr (JStr n)"
    by (auto simp: entryOk_def nonEmptyString_def split: sum.splits jsval.splits)
  from getProp_notNull [OF entryOk_notNull [OF assms]]
  obtain dn t m i c u where
    "getProp d ''dataNascimento'' = Inr dn" "getProp d ''telefone'' = Inr t"
    "getProp d ''email'' = Inr m" "getProp d ''id'' = Inr i"
    "getProp d ''createdAt'' = Inr c" "getProp d ''updatedAt'' = Inr u"
    by meson
  with n show ?thesis
    by (simp add: fromJSON_def withProp_def newPerson_def)
qed

lemma mapFromJSON_entryOk:
  "list_all entryOk xs \<Longrightarrow> \<exists>ps. mapFromJSON fresh i xs = Inr ps \<and> length ps = length xs"
proof (induction xs arbitrary: i)
  case Nil
  then show ?case by simp
next
  case (Cons x xs)
  then have "entryOk x" and rest: "list_all entryOk xs" by simp_all
  from fromJSON_entryOk [OF this(1)] obtain p where p: "fromJSON (fresh i) x = Inr p" by blast
  from Cons.IH [OF rest, of "i + 1"] obtain ps where
    "mapFromJSON fresh (i + 1) xs = Inr ps" "length ps = length xs" by blast
  with p show ?case by simp
qed

lemma importData_invalid:
  assumes f: "importFromFile f = Inr (JArr xs)" and nn: "list_all notNull xs"
    and bad: "\<not> list_all entryOk xs"
  shows "\<exists>issues. importData fresh f s
                   = (Inl (AppError (InvalidData issues) VALIDATION_ERROR None), s)"
proof -
  from validateImportData_counts [OF nn] obtain r where
    "validateImportData (JArr xs) = Inr r" "ok r \<longleftrightarrow> list_all entryOk xs" by blast
  with f bad show ?thesis
    by (simp add: importData_def rethrow_def)
qed

lemma importData_valid:
  assumes f: "importFromFile f = Inr (JArr xs)" and good: "list_all entryOk xs"
  shows "\<exists>r s' ref. importData fresh f s = (Inr (ref, r), s')
            \<and> length (arrays s' ref) = length xs
            \<and> validRecords r = length xs \<and> invalidRecords r = 0"
proof -
  from good have nn: "list_all notNull xs"
    by (simp add: list_all_iff entryOk_notNull)
  from validateImportData_counts [OF nn] obtain r where
    r: "validateImportData (JArr xs) = Inr r" "ok r \<longleftrightarrow> list_all entryOk xs"
       "validRecords r = length (filter entryOk xs)"
       "invalidRecords r = length (filter (\<lambda>x. \<not> entryOk x) xs)" by blast
  from good have all: "filter entryOk xs = xs" "filter (\<lambda>x. \<not> entryOk x) xs = []"
    by (simp_all add: list_all_iff)
  from mapFromJSON_entryOk [OF good, of fresh 0] obtain ps where
    ps: "mapFromJSON fresh 0 xs = Inr ps" "length ps = length xs" by blast
  from f r good ps all show ?thesis
    by (simp add: importData_def newArray_def)
qed

text \<open>
  Claim C7, as amended. For an imported array whose entries are not \<open>null\<close>,
  \<open>validateImportData\<close> tests each entry (name, email and phone strings that are not
  empty, a birth date present) and returns the numbers of valid and of invalid entries;
  its \<open>isValid\<close> is false as soon as one entry is invalid. \<open>importData\<close> then rejects the
  whole import with a validation error, and leaves the state as it was; only when every
  entry is valid does it return the candidate Records, one for each entry, with the
  summary.
\<close>

theorem importData_counts_and_rejects_invalid_entries:
  assumes "list_all notNull xs"
  shows "(\<exists>r. validateImportData (JArr xs) = Inr r
            \<and> validRecords r = length (filter entryOk xs)
            \<and> invalidRecords r = length (filter (\<lambda>x. \<not> entryOk x) xs)
            \<and> validRecords r + invalidRecords r = length xs
            \<and> (ok r \<longleftrightarrow> invalidRecords r = 0))
       \<and> (importFromFile f = Inr (JArr xs) \<and> \<not> list_all entryOk xs \<longrightarrow>
            (\<exists>issues. importData fresh f s
                        = (Inl (AppError (InvalidData issues) VALIDATION_ERROR None), s)))
       \<and> (importFromFile f = Inr (JArr xs) \<and> list_all entryOk xs \<longrightarrow>
            (\<exists>r s' ref. importData fresh f s = (Inr (ref, r), s')
                \<and> length (arrays s' ref) = length xs
                \<and> validRecords r = length xs \<and> invalidRecords r = 0))"
proof (intro conjI impI)
  from validateImportData_counts [OF assms] obtain r where
    r: "validateImportData (JArr xs) = Inr r"
       "validRecords r = length (filter entryOk xs)"
       "invalidRecords r = length (filter (\<lambda>x. \<not> entryOk x) xs)"
       "ok r \<longleftrightarrow> list_all entryOk xs" by blast
  have total: "length (filter entryOk xs) + length (filter (\<lambda>x. \<not> entryOk x) xs) = length xs"
    using sum_length_filter_compl [of entryOk xs] by simp
  have zero: "length (filter (\<lambda>x. \<not> entryOk x) xs) = 0 \<longleftrightarrow> list_all entryOk xs"
    by (auto simp: list_all_iff filter_empty_conv)
  from r total zero
  show "\<exists>r. validateImportData (JArr xs) = Inr r
            \<and> validRecords r = length (filter entryOk xs)
            \<and> invalidRecords r = length (filter (\<lambda>x. \<not> entryOk x) xs)
            \<and> validRecords r + invalidRecords r = length xs
            \<and> (ok r \<longleftrightarrow> invalidRecords r = 0)"
    by auto
next
  assume "importFromFile f = Inr (JArr xs) \<and> \<not> list_all entryOk xs"
  then show "\<exists>issues. importData fresh f s
                        = (Inl (AppError (InvalidData issues) VALIDATION_ERROR None), s)"
    using importData_invalid [OF _ assms] by blast
next
  assume "importFromFile f = Inr (JArr xs) \<and> list_all entryOk xs"
  then show "\<exists>r s' ref. importData fresh f s = (Inr (ref, r), s')
                \<and> length (arrays s' ref) = length xs
                \<and> validRecords r = length xs \<and> invalidRecords r = 0"
    using importData_valid by blast
qed


theorem importData_counts_and_rejects_invalid_entries_witness:
  "(\<exists>r. validateImportData (JArr [anaEntry, JObj [(''nome'', JStr ''Bia'')]]) = Inr r
        \<and> validRecords r = 1 \<and> invalidRecords r = 1 \<and> \<not> ok r)
   \<and> (\<exists>issues. fst (importData (\<lambda>i. clock0)
                        (Some (exportFile [anaEntry, JObj [(''nome'', JStr ''Bia'')]]))
                        (emptyPage 5000000))
                 = Inl (AppError (InvalidData issues) VALIDATION_ERROR None))
   \<and> (\<exists>r ref. fst (importData (\<lambda>i. clock0) (Some (exportFile [anaEntry])) (emptyPage 5000000))
                 = Inr (ref, r) \<and> validRecords r = 1 \<and> invalidRecords r = 0)"
proof -
  let ?xs = "[anaEntry, JObj [(''nome'', JStr ''Bia'')]]"
  have nn: "list_all notNull ?xs" by code_simp
  have f: "importFromFile (Some (exportFile ?xs)) = Inr (JArr ?xs)" by code_simp
  have bad: "\<not> list_all entryOk ?xs" by code_simp
  have c: "length (filter entryOk ?xs) = 1" "length (filter (\<lambda>x. \<not> entryOk x) ?xs) = 1"
    by code_simp+
  have nn1: "list_all notNull [anaEntry]" by code_simp
  have f1: "importFromFile (Some (exportFile [anaEntry])) = Inr (JArr [anaEntry])" by code_simp
  have good: "list_all entryOk [anaEntry]" by code_simp
  note t = importData_counts_and_rejects_invalid_entries
             [OF nn, of "Some (exportFile ?xs)" "\<lambda>i. clock0" "emptyPage 5000000"]
  note t1 = importData_counts_and_rejects_invalid_entries
             [OF nn1, of "Some (exportFile [anaEntry])" "\<lambda>i. clock0" "emptyPage 5000000"]
  from t c have a: "\<exists>r. validateImportData (JArr ?xs) = Inr r
        \<and> validRecords r = 1 \<and> invalidRecords r = 1 \<and> \<not> ok r" by auto
  from t f bad have b: "\<exists>issues. fst (importData (\<lambda>i. clock0) (Some (exportFile ?xs))
                        (emptyPage 5000000))
                 = Inl (AppError (InvalidData issues) VALIDATION_ERROR None)" by auto
  from t1 f1 good have d: "\<exists>r ref. fst (importData (\<lambda>i. clock0) (Some (exportFile [anaEntry]))
         (emptyPage 5000000)) = Inr (ref, r) \<and> validRecords r = 1 \<and> invalidRecords r = 0"
    by fastforce
  from a b d show ?thesis by blast
qed

text \<open>
  The claim as it is written fails: a file with one valid and one invalid entry is
  rejected as a whole, for the invalid entry alone.
\<close>

theorem importData_rejects_whole_import:
  "validateImportData (JArr [anaEntry, JObj [(''nome'', JStr ''Bia'')]])
     = Inr \<lparr> ok = False,
             problems = [RecordIssue 2 F_email, RecordIssue 2 F_telefone,
                         RecordIssue 2 F_dataNascimento],
             warnings = [], validRecords = 1, invalidRecords = 1 \<rparr>
   \<and> fst (importData (\<lambda>i. clock0)
            (Some (exportFile [anaEntry, JObj [(''nome'', JStr ''Bia'')]])) (emptyPage 5000000))
     = Inl (AppError (InvalidData [RecordIssue 2 F_email, RecordIssue 2 F_telefone,
                                   RecordIssue 2 F_dataNascimento])
                     VALIDATION_ERROR None)"
  by code_simp

section \<open>The phone validator\<close>

lemma parseInt_two_digits:
  assumes "isDigit a" "isDigit b"
  shows "parseInt [a, b] = Some (10 * digitValue a + digitValue b)"
  using assms by (simp add: parseInt_def)

lemma validatePhone_JStr:
  "validatePhone (JStr p) \<longleftrightarrow>
     (let d = filter isDigit p
      in (length d = 10 \<or> length d = 11) \<and>
         11 \<le> 10 * digitValue (d ! 0) + digitValue (d ! 1) \<and>
         10 * digitValue (d ! 0) + digitValue (d ! 1) \<le> 99)"
proof -
  define d where "d = filter isDigit p"
  have dig: "\<forall>c \<in> set d. isDigit c" by (simp add: d_def)
  show ?thesis
  proof (cases "length d = 10 \<or> length d = 11")
    case False
    then show ?thesis
      by (cases "p = []") (auto simp: validatePhone_def Let_def d_def[symmetric])
  next
    case True
    then have len: "2 \<le> length d" by auto
    from len obtain a b r where dd: "d = a # b # r"
      by (cases d; cases "tl d") auto
    with dig have "isDigit (d ! 0)" "isDigit (d ! 1)" by simp_all
    then have pi: "parseInt (take 2 d) = Some (10 * digitValue (d ! 0) + digitValue (d ! 1))"
      by (simp add: dd parseInt_two_digits)
    from True have "p \<noteq> []" by (auto simp: d_def)
    with True pi show ?thesis
      by (auto simp: validatePhone_def Let_def d_def[symmetric])
  qed
qed

lemma validatePhone_not_string: "\<not> isString v \<Longrightarrow> \<not> validatePhone v"
  by (simp add: validatePhone_def)

text \<open>
  Claim C8. \<open>validatePhone\<close> keeps the digits of its input and answers true exactly when
  the input is a string with 10 or 11 digits whose first two digits, read as a decimal
  number, lie between 11 and 99; an input that is not a string is refused. The four
  examples of the specification come out as it says.
\<close>

theorem validatePhone_digits_and_area_code:
  "(validatePhone v \<longleftrightarrow>
      (\<exists>p. v = JStr p \<and>
        (length (filter isDigit p) = 10 \<or> length (filter isDigit p) = 11) \<and>
        11 \<le> 10 * digitValue (filter isDigit p ! 0) + digitValue (filter isDigit p ! 1) \<and>
        10 * digitValue (filter isDigit p ! 0) + digitValue (filter isDigit p ! 1) \<le> 99))
   \<and> validatePhone (JStr ''(11) 99999-9999'')
   \<and> validatePhone (JStr ''11999999999'')
   \<and> \<not> validatePhone (JStr ''123456789'')
   \<and> \<not> validatePhone (JStr ''(01) 99999-9999'')"
proof -
  have general: "validatePhone v \<longleftrightarrow>
      (\<exists>p. v = JStr p \<and>
        (length (filter isDigit p) = 10 \<or> length (filter isDigit p) = 11) \<and>
        11 \<le> 10 * digitValue (filter isDigit p ! 0) + digitValue (filter isDigit p ! 1) \<and>
        10 * digitValue (filter isDigit p ! 0) + digitValue (filter isDigit p ! 1) \<le> 99)"
  proof (cases v)
    case (JStr p)
    then show ?thesis by (simp add: validatePhone_JStr Let_def)
  qed (simp_all add: validatePhone_not_string)
  have e1: "validatePhone (JStr ''(11) 99999-9999'')"
    by (simp add: validatePhone_JStr isDigit_def digitValue_def)
  have e2: "validatePhone (JStr ''11999999999'')"
    by (simp add: validatePhone_JStr isDigit_def digitValue_def)
  have e3: "\<not> validatePhone (JStr ''123456789'')"
    by (simp add: validatePhone_JStr isDigit_def digitValue_def)
  have e4: "\<not> validatePhone (JStr ''(01) 99999-9999'')"
    by (simp add: validatePhone_JStr isDigit_def digitValue_def)
  from general e1 e2 e3 e4 show ?thesis by blast
qed

theorem validatePhone_digits_and_area_code_witness:
  "validatePhone (JStr ''21 3333-4444'') \<and> \<not> validatePhone (JStr ''10 3333-4444'')
   \<and> \<not> validatePhone (JNum 2133334444)"
proof -
  have a: "validatePhone (JStr ''21 3333-4444'')"
    using validatePhone_digits_and_area_code [of "JStr ''21 3333-4444''"]
    by (simp add: isDigit_def digitValue_def)
  have b: "\<not> validatePhone (JStr ''10 3333-4444'')"
    using validatePhone_digits_and_area_code [of "JStr ''10 3333-4444''"]
    by (simp add: isDigit_def digitValue_def)
  have c: "\<not> validatePhone (JNum 2133334444)"
    using validatePhone_digits_and_area_code [of "JNum 2133334444"] by simp
  from a b c show ?thesis by simp
qed

section \<open>Backups\<close>

lemma jsonClone_JUndefined: "jsonClone v = JUndefined \<longleftrightarrow> v = JUndefined"
  by (cases v rule: jsonClone.cases) auto

lemma jsonClone_idem: "jsonClone (jsonClone v) = jsonClone v"
proof (induction v rule: jsonClone.induct)
  case (3 xs)
  then show ?case by (auto simp: jsonClone_JUndefined)
next
  case (4 ps)
  have "concat (map (\<lambda>p. if snd p = JUndefined then [] else [(fst p, jsonClone (snd p))])
          (concat (map (\<lambda>p. if snd p = JUndefined then [] else [(fst p, jsonClone (snd p))]) ps)))
        = concat (map (\<lambda>p. if snd p = JUndefined then [] else [(fst p, jsonClone (snd p))]) ps)"
    using 4 by (induction ps) (auto simp: jsonClone_JUndefined)
  then show ?case by simp
qed simp_all

lemma stringify_None: "stringify v = None \<longleftrightarrow> v = JUndefined"
  by (cases v rule: stringify.cases) auto

lemma stringify_jsonClone: "stringify (jsonClone v) = stringify v"
proof (induction v rule: jsonClone.induct)
  case (3 xs)
  have "map ((\<lambda>x. case stringify x of None \<Rightarrow> ''null'' | Some t \<Rightarrow> t)
             \<circ> (\<lambda>x. if x = JUndefined then JNull else jsonClone x)) xs
        = map (\<lambda>x. case stringify x of None \<Rightarrow> ''null'' | Some t \<Rightarrow> t) xs"
    using 3 by (intro map_cong) auto
  then show ?case by (simp del: map_eq_conv)
next
  case (4 ps)
  have "concat (map (\<lambda>p. case stringify (snd p) of None \<Rightarrow> []
                          | Some t \<Rightarrow> [quoteJSONString (fst p) @ '':'' @ t])
          (concat (map (\<lambda>p. if snd p = JUndefined then [] else [(fst p, jsonClone (snd p))]) ps)))
        = concat (map (\<lambda>p. case stringify (snd p) of None \<Rightarrow> []
                          | Some t \<Rightarrow> [quoteJSONString (fst p) @ '':'' @ t]) ps)"
    using 4 by (induction ps) (auto split: option.splits)
  then show ?case by simp
qed simp_all

lemma isJSON_jsonClone: "isJSON v \<Longrightarrow> jsonClone v = v"
proof (induction v rule: jsonClone.induct)
  case (3 xs)
  then have "map (\<lambda>x. if x = JUndefined then JNull else jsonClone x) xs = xs"
    by (induction xs) auto
  then show ?case by simp
next
  case (4 ps)
  then have "concat (map (\<lambda>p. if snd p = JUndefined then [] else [(fst p, jsonClone (snd p))]) ps) = ps"
    by (induction ps) auto
  then show ?case by simp
qed simp_all

lemma calculateChecksum_jsonClone: "calculateChecksum (jsonClone v) = calculateChecksum v"
  by (simp add: calculateChecksum_def stringify_jsonClone)

lemma createBackup_stored:
  assumes "createBackup e data s = (Inr bid, s')"
  shows "\<exists>cs rest. bid = generateBackupId e \<and> data \<noteq> JUndefined
           \<and> calculateChecksum data = Inr cs
           \<and> getItem backupKey s' =
                Some (Json (JArr (JObj [(''id'', JStr bid),
                                        (''timestamp'', JStr (toISOString (now e))),
                                        (''data'', jsonClone data),
                                        (''version'', JStr ''1.0''),
                                        (''checksum'', JStr cs)] # rest)))"
proof -
  from assms have d: "data \<noteq> JUndefined"
    by (auto simp: createBackup_def Let_def split: if_splits)
  from assms d obtain cs where cs: "calculateChecksum data = Inr cs"
    by (cases "calculateChecksum data") (auto simp: createBackup_def Let_def)
  let ?b = "JObj [(''id'', JStr (generateBackupId e)),
                  (''timestamp'', JStr (toISOString (now e))),
                  (''data'', jsonClone data),
                  (''version'', JStr ''1.0''),
                  (''checksum'', JStr cs)]"
  from assms d cs obtain bs where bs: "getBackups s = JArr bs"
    by (cases "getBackups s") (auto simp: createBackup_def Let_def)
  from assms d cs bs have st: "storeJSON backupKey (JArr (take maxBackups (?b # bs))) s = Inr s'"
    and bid: "bid = generateBackupId e"
    by (auto simp: createBackup_def Let_def split: sum.splits)
  have cl: "jsonClone ?b = ?b"
    using d by (simp add: jsonClone_JUndefined jsonClone_idem)
  have "jsonClone (JArr (take maxBackups (?b # bs)))
          = JArr (?b # map (\<lambda>x. if x = JUndefined then JNull else jsonClone x) (take 4 bs))"
    using cl by (simp add: maxBackups_def jsonClone_JUndefined jsonClone_idem)
  with st have "getItem backupKey s' =
      Some (Json (JArr (?b # map (\<lambda>x. if x = JUndefined then JNull else jsonClone x) (take 4 bs))))"
    by (auto simp: storeJSON_def dest: setItem_frame(5))
  with bid d cs show ?thesis by blast
qed

lemma restoreBackup_newest:
  assumes g: "getItem backupKey s =
                Some (Json (JArr (JObj [(''id'', JStr bid), (''timestamp'', ts), (''data'', d),
                                        (''version'', ver), (''checksum'', JStr cs)] # rest)))"
    and c: "calculateChecksum d = Inr cs'"
  shows "restoreBackup bid s =
           (if cs' = cs then Inr d else Inl (AppError BackupCorrupt STORAGE_ERROR None))"
  using g c by (simp add: restoreBackup_def getBackups_def Let_def)

lemma tamperNewest_stored:
  assumes "getItem backupKey s =
             Some (Json (JArr (JObj [(''id'', JStr bid), (''timestamp'', ts), (''data'', d),
                                     (''version'', ver), (''checksum'', JStr cs)] # rest)))"
  shows "getItem backupKey (tamperNewest d' s) =
             Some (Json (JArr (JObj [(''id'', JStr bid), (''timestamp'', ts), (''data'', d'),
                                     (''version'', ver), (''checksum'', JStr cs)] # rest)))"
  using assms
  by (simp add: tamperNewest_def setData_def getItem_def map_of_putItem_same)

lemma calculateChecksum_defined: "v \<noteq> JUndefined \<Longrightarrow> \<exists>cs. calculateChecksum v = Inr cs"
  by (cases "stringify v") (simp_all add: calculateChecksum_def stringify_None)

text \<open>
  Claim C9, as amended. When \<open>createBackup(data)\<close> has returned an identifier,
  \<open>restoreBackup\<close> of that identifier returns the data as JSON carries them: the clone
  \<open>JSON.parse(JSON.stringify(data))\<close>, which is \<open>data\<close> itself when \<open>data\<close> is plain JSON
  and has the ISO string in the place of each \<open>Date\<close> otherwise. When the data of the
  stored snapshot have been replaced by data with another checksum, \<open>restoreBackup\<close>
  throws the error of a corrupt backup, an \<open>AppError\<close> of the type \<open>STORAGE_ERROR\<close>.
\<close>

theorem restoreBackup_after_createBackup:
  "createBackup e data s = (Inr bid, s') \<longrightarrow>
     restoreBackup bid s' = Inr (jsonClone data)
     \<and> (isJSON data \<longrightarrow> restoreBackup bid s' = Inr data)
     \<and> (d' \<noteq> JUndefined \<and> calculateChecksum d' \<noteq> calculateChecksum data \<longrightarrow>
          restoreBackup bid (tamperNewest d' s')
            = Inl (AppError BackupCorrupt STORAGE_ERROR None))"
proof
  assume "createBackup e data s = (Inr bid, s')"
  from createBackup_stored [OF this] obtain cs rest where
    cs: "calculateChecksum data = Inr cs" and
    g: "getItem backupKey s' =
          Some (Json (JArr (JObj [(''id'', JStr bid),
                                  (''timestamp'', JStr (toISOString (now e))),
                                  (''data'', jsonClone data),
                                  (''version'', JStr ''1.0''),
                                  (''checksum'', JStr cs)] # rest)))"
    by blast
  from cs have c2: "calculateChecksum (jsonClone data) = Inr cs"
    by (simp add: calculateChecksum_jsonClone)
  from restoreBackup_newest [OF g c2]
  have r: "restoreBackup bid s' = Inr (jsonClone data)" by simp
  have t: "restoreBackup bid (tamperNewest d' s') = Inl (AppError BackupCorrupt STORAGE_ERROR None)"
    if "d' \<noteq> JUndefined" "calculateChecksum d' \<noteq> calculateChecksum data"
  proof -
    from calculateChecksum_defined [OF that(1)] obtain cs' where
      c': "calculateChecksum d' = Inr cs'" by blast
    with that(2) cs have "cs' \<noteq> cs" by auto
    with restoreBackup_newest [OF tamperNewest_stored [OF g] c'] show ?thesis by simp
  qed
  from r t show "restoreBackup bid s' = Inr (jsonClone data)
     \<and> (isJSON data \<longrightarrow> restoreBackup bid s' = Inr data)
     \<and> (d' \<noteq> JUndefined \<and> calculateChecksum d' \<noteq> calculateChecksum data \<longrightarrow>
          restoreBackup bid (tamperNewest d' s')
            = Inl (AppError BackupCorrupt STORAGE_ERROR None))"
    by (auto simp: isJSON_jsonClone)
qed

theorem restoreBackup_after_createBackup_witness:
  "restoreBackup ''backup_1793664000000_k3x9q0a1z''
       (snd (createBackup clock0 (JArr [anaEntry]) (emptyPage 5000000)))
     = Inr (JArr [anaEntry])
   \<and> restoreBackup ''backup_1793664000000_k3x9q0a1z''
       (tamperNewest (JArr []) (snd (createBackup clock0 (JArr [anaEntry]) (emptyPage 5000000))))
     = Inl (AppError BackupCorrupt STORAGE_ERROR None)"
proof -
  let ?s = "emptyPage 5000000"
  let ?id = "''backup_1793664000000_k3x9q0a1z''"
  have "fst (createBackup clock0 (JArr [anaEntry]) ?s) = Inr ?id" by code_simp
  then have c: "createBackup clock0 (JArr [anaEntry]) ?s
                  = (Inr ?id, snd (createBackup clock0 (JArr [anaEntry]) ?s))"
    by (metis prod.collapse)
  have j: "isJSON (JArr [anaEntry])" by code_simp
  have t: "JArr [] \<noteq> JUndefined
           \<and> calculateChecksum (JArr []) \<noteq> calculateChecksum (JArr [anaEntry])"
    by code_simp
  from restoreBackup_after_createBackup
         [of clock0 "JArr [anaEntry]" ?s ?id "snd (createBackup clock0 (JArr [anaEntry]) ?s)"
             "JArr []"] c j t
  show ?thesis by blast
qed

text \<open>
  The claim as it is written fails for the arrays that the manager itself hands to
  \<open>createBackup\<close>: \<open>toJSON\<close> leaves the two stamps as \<open>Date\<close> objects, and the restored
  data hold their ISO strings.
\<close>

theorem restoreBackup_returns_strings_for_dates:
  "fst (createBackup clock0 (JArr [toJSON ana]) (emptyPage 5000000))
     = Inr ''backup_1793664000000_k3x9q0a1z''
   \<and> restoreBackup ''backup_1793664000000_k3x9q0a1z''
         (snd (createBackup clock0 (JArr [toJSON ana]) (emptyPage 5000000)))
     = Inr (JArr [anaEntry])
   \<and> JArr [anaEntry] \<noteq> JArr [toJSON ana]"
  by code_simp


section \<open>Unique contacts\<close>

lemma strictEq_sym: "strictEq a b = strictEq b a"
  by (cases a; cases b) auto

lemma sameContact_sym: "sameContact p q = sameContact q p"
  by (auto simp: sameContact_def strictEq_sym)

lemma noDuplicates_append:
  "noDuplicates (xs @ ys) \<longleftrightarrow>
     noDuplicates xs \<and> noDuplicates ys \<and> (\<forall>x\<in>set xs. \<forall>y\<in>set ys. \<not> sameContact x y)"
  by (induction xs) (auto simp: list_all_iff)

lemma isDuplicate_iff:
  "isDuplicate p i s \<longleftrightarrow>
     (\<exists>j < length (getPersons s). int j \<noteq> i \<and> sameContact (getPersons s ! j) p)"
  by (auto simp: isDuplicate_def list_ex_iff in_set_enumerate_eq sameContact_def)

lemma isDuplicate_any:
  "isDuplicate p (- 1) s \<longleftrightarrow> (\<exists>q\<in>set (getPersons s). sameContact q p)"
proof
  assume "isDuplicate p (- 1) s"
  then obtain j where "j < length (getPersons s)" "sameContact (getPersons s ! j) p"
    by (auto simp: isDuplicate_iff)
  then show "\<exists>q\<in>set (getPersons s). sameContact q p"
    using nth_mem by blast
next
  assume "\<exists>q\<in>set (getPersons s). sameContact q p"
  then obtain j where "j < length (getPersons s)" "sameContact (getPersons s ! j) p"
    by (auto simp: in_set_conv_nth)
  then show "isDuplicate p (- 1) s"
    by (auto simp: isDuplicate_iff)
qed

lemma noDuplicates_add:
  assumes "noDuplicates ps" "\<forall>q\<in>set ps. \<not> sameContact q p"
  shows "noDuplicates (ps @ [p])"
  using assms by (simp add: noDuplicates_append)

lemma noDuplicates_delete:
  assumes "noDuplicates ps"
  shows "noDuplicates (take n ps @ drop (n + 1) ps)"
proof -
  have "ps = take n ps @ drop n ps" by simp
  with assms have a: "noDuplicates (take n ps)" "noDuplicates (drop n ps)"
    "\<forall>x\<in>set (take n ps). \<forall>y\<in>set (drop n ps). \<not> sameContact x y"
    by (metis noDuplicates_append)+
  have sub: "set (drop (n + 1) ps) \<subseteq> set (drop n ps)"
    by (metis add.commute drop_drop set_drop_subset)
  have "noDuplicates (drop (n + 1) ps)"
  proof (cases "n < length ps")
    case True
    then have "drop n ps = ps ! n # drop (n + 1) ps" by (simp add: Cons_nth_drop_Suc)
    with a(2) show ?thesis by simp
  next
    case False
    then show ?thesis by simp
  qed
  with a sub show ?thesis by (auto simp: noDuplicates_append)
qed

lemma noDuplicates_update:
  assumes nd: "noDuplicates ps" and n: "n < length ps"
    and other: "\<forall>j < length ps. j \<noteq> n \<longrightarrow> \<not> sameContact (ps ! j) p"
    and same: "email p' = email p" "telefone p' = telefone p"
  shows "noDuplicates (ps[n := p'])"
proof -
  have sc: "\<And>q. sameContact q p' = sameContact q p" "\<And>q. sameContact p' q = sameContact p q"
    by (simp_all add: sameContact_def same)
  have del: "noDuplicates (take n ps @ drop (n + 1) ps)" using nd by (rule noDuplicates_delete)
  have upd: "ps[n := p'] = take n ps @ p' # drop (n + 1) ps"
    using n by (simp add: upd_conv_take_nth_drop)
  have before: "\<forall>x\<in>set (take n ps). \<not> sameContact x p"
  proof
    fix x assume "x \<in> set (take n ps)"
    then obtain j where "j < n" "x = ps ! j" using n
      by (auto simp: in_set_conv_nth)
    with other n show "\<not> sameContact x p" by auto
  qed
  have after: "\<forall>y\<in>set (drop (n + 1) ps). \<not> sameContact y p"
  proof
    fix y assume "y \<in> set (drop (n + 1) ps)"
    then obtain j where "j < length ps - (n + 1)" "y = ps ! (n + 1 + j)"
      by (auto simp: in_set_conv_nth)
    with other show "\<not> sameContact y p" by auto
  qed
  from del before after show ?thesis
    unfolding upd
    by (auto simp: noDuplicates_append list_all_iff sc sameContact_sym [of p])
qed

subsection \<open>What the snapshots keep of the contacts\<close>

lemma sameContact_sameFields:
  "sameFields p' p \<Longrightarrow> sameFields q' q \<Longrightarrow> sameContact p' q' = sameContact p q"
  unfolding sameFields_def sameContact_def by metis

lemma list_all_sameContact:
  "list_all2 sameFields qs ps \<Longrightarrow> sameFields p' p \<Longrightarrow>
     list_all (\<lambda>q. \<not> sameContact p' q) qs = list_all (\<lambda>q. \<not> sameContact p q) ps"
  by (induction rule: list_all2_induct) (simp_all add: sameContact_sameFields)

lemma noDuplicates_sameFields:
  "list_all2 sameFields ps' ps \<Longrightarrow> noDuplicates ps' = noDuplicates ps"
  by (induction rule: list_all2_induct) (simp_all add: list_all_sameContact)

lemma stringContacts_sameFields:
  "list_all2 sameFields ps' ps \<Longrightarrow> stringContacts ps' = stringContacts ps"
  unfolding stringContacts_def
  by (induction rule: list_all2_induct) (simp_all add: sameFields_def)

lemma isJSON_jsonClone_result: "v \<noteq> JUndefined \<Longrightarrow> isJSON (jsonClone v)"
proof (induction v rule: jsonClone.induct)
  case (3 xs)
  then show ?case by (auto simp: list_all_iff)
next
  case (4 ps)
  then show ?case by (auto simp: list_all_iff)
qed simp_all

lemma toJSON_not_undefined: "toJSON p \<noteq> JUndefined"
  by (simp add: toJSON_def)

lemma clone_toJSON_props:
  assumes "email p = JStr m" "telefone p = JStr t"
  shows "getProp (jsonClone (toJSON p)) ''email'' = Inr (JStr m)"
    and "getProp (jsonClone (toJSON p)) ''telefone'' = Inr (JStr t)"
  using assms by (simp_all add: toJSON_def)

lemma fromJSON_fields:
  assumes "fromJSON e d = Inr p'"
  shows "getProp d ''email'' = Inr (email p') \<and> getProp d ''telefone'' = Inr (telefone p')"
proof -
  from assms obtain n dn t m where
    g: "getProp d ''nome'' = Inr n" "getProp d ''dataNascimento'' = Inr dn"
       "getProp d ''telefone'' = Inr t" "getProp d ''email'' = Inr m"
    by (auto simp: fromJSON_def withProp_def split: sum.splits)
  from assms g obtain q where q: "newPerson e n dn t m = Inr q"
    by (cases "newPerson e n dn t m") (auto simp: fromJSON_def withProp_def)
  then have qf: "email q = m" "telefone q = t"
    by (auto simp: newPerson_def split: if_splits)
  from assms g q have "email p' = email q \<and> telefone p' = telefone q"
    by (auto simp: fromJSON_def withProp_def split: sum.splits)
  with qf g show ?thesis by simp
qed

lemma fromJSON_clone_sameFields:
  assumes s: "isString (email p)" "isString (telefone p)"
    and f: "fromJSON e (jsonClone (toJSON p)) = Inr p'"
  shows "sameFields p' p"
proof -
  from s obtain m t where mt: "email p = JStr m" "telefone p = JStr t"
    by (cases "email p"; cases "telefone p") auto
  from fromJSON_fields [OF f] clone_toJSON_props [OF mt] mt
  show ?thesis by (simp add: sameFields_def)
qed

lemma mapFromJSON_clone_sameFields:
  assumes "stringContacts ps" "mapFromJSON fresh i (map (\<lambda>p. jsonClone (toJSON p)) ps) = Inr ps'"
  shows "list_all2 sameFields ps' ps"
  using assms
proof (induction ps arbitrary: i ps')
  case Nil
  then show ?case by simp
next
  case (Cons p ps)
  from Cons.prems(1) have s: "isString (email p)" "isString (telefone p)" "stringContacts ps"
    by (simp_all add: stringContacts_def)
  from Cons.prems(2) obtain p' qs where
    f: "fromJSON (fresh i) (jsonClone (toJSON p)) = Inr p'" and
    m: "mapFromJSON fresh (i + 1) (map (\<lambda>p. jsonClone (toJSON p)) ps) = Inr qs" and
    ps': "ps' = p' # qs"
    by (auto split: sum.splits)
  from fromJSON_clone_sameFields [OF s(1,2) f] Cons.IH [OF s(3) m] ps'
  show ?case by simp
qed

subsection \<open>The history that the manager writes\<close>

lemma cleanHistory_cong: "getBackups s' = getBackups s \<Longrightarrow> cleanHistory s' = cleanHistory s"
  by (simp add: cleanHistory_def)

lemma getBackups_cong: "getItem backupKey s' = getItem backupKey s \<Longrightarrow> getBackups s' = getBackups s"
  by (simp add: getBackups_def)

lemma createBackup_history:
  assumes bs: "getBackups s = JArr bs" "\<forall>b\<in>set bs. isJSON b"
    and c: "createBackup e data s = (r, s')"
  shows "s' = s
       \<or> (\<exists>b0. getBackups s' = JArr (b0 # take 4 bs) \<and> isJSON b0
                \<and> getProp b0 ''data'' = Inr (jsonClone data))"
proof (cases r)
  case (Inl err)
  with c show ?thesis
    by (auto simp: createBackup_def Let_def split: if_splits sum.splits jsval.splits)
next
  case (Inr bid)
  with c have d: "data \<noteq> JUndefined"
    by (auto simp: createBackup_def Let_def split: if_splits)
  from c Inr d obtain cs where cs: "calculateChecksum data = Inr cs"
    by (cases "calculateChecksum data") (auto simp: createBackup_def Let_def)
  let ?b = "JObj [(''id'', JStr (generateBackupId e)),
                  (''timestamp'', JStr (toISOString (now e))),
                  (''data'', jsonClone data),
                  (''version'', JStr ''1.0''),
                  (''checksum'', JStr cs)]"
  from c Inr d cs bs have st: "storeJSON backupKey (JArr (take maxBackups (?b # bs))) s = Inr s'"
    by (auto simp: createBackup_def Let_def split: sum.splits)
  have jb: "isJSON ?b" using d by (simp add: isJSON_jsonClone_result)
  have tk: "take maxBackups (?b # bs) = ?b # take 4 bs"
    by (simp add: maxBackups_def)
  have "list_all isJSON (take 4 bs)"
    using bs(2) by (auto simp: list_all_iff dest: in_set_takeD)
  with jb have "isJSON (JArr (?b # take 4 bs))" by simp
  from isJSON_jsonClone [OF this] tk
  have "jsonClone (JArr (take maxBackups (?b # bs))) = JArr (?b # take 4 bs)"
    by (simp only:)
  with st have "getItem backupKey s' = Some (Json (JArr (?b # take 4 bs)))"
    by (auto simp: storeJSON_def dest: setItem_frame(5))
  then have "getBackups s' = JArr (?b # take 4 bs)" by (simp add: getBackups_def)
  with jb show ?thesis by auto
qed

lemma createBackup_cleanHistory:
  assumes h: "cleanHistory s" and ps: "noDuplicates ps" "stringContacts ps"
    and c: "createBackup e (JArr (map toJSON ps)) s = (r, s')"
  shows "cleanHistory s'"
proof -
  from h obtain bs where bs: "getBackups s = JArr bs" and
    all: "\<forall>b\<in>set bs. isJSON b
            \<and> (\<exists>ps. getProp b ''data'' = Inr (JArr (map (\<lambda>p. jsonClone (toJSON p)) ps))
                   \<and> noDuplicates ps \<and> stringContacts ps)"
    by (auto simp: cleanHistory_def)
  from all have js: "\<forall>b\<in>set bs. isJSON b" by blast
  have cl: "jsonClone (JArr (map toJSON ps)) = JArr (map (\<lambda>p. jsonClone (toJSON p)) ps)"
    by (simp add: toJSON_not_undefined comp_def)
  from createBackup_history [OF bs js c, unfolded cl] show ?thesis
  proof
    assume "s' = s"
    with h show ?thesis by simp
  next
    assume "\<exists>b0. getBackups s' = JArr (b0 # take 4 bs) \<and> isJSON b0
                \<and> getProp b0 ''data'' = Inr (JArr (map (\<lambda>p. jsonClone (toJSON p)) ps))"
    then obtain b0 where b0: "getBackups s' = JArr (b0 # take 4 bs)" "isJSON b0"
      "getProp b0 ''data'' = Inr (JArr (map (\<lambda>p. jsonClone (toJSON p)) ps))"
      by blast
    have "\<forall>b\<in>set (b0 # take 4 bs). isJSON b
            \<and> (\<exists>ps. getProp b ''data'' = Inr (JArr (map (\<lambda>p. jsonClone (toJSON p)) ps))
                   \<and> noDuplicates ps \<and> stringContacts ps)"
    proof
      fix b assume "b \<in> set (b0 # take 4 bs)"
      then have "b = b0 \<or> b \<in> set bs" by (auto dest: in_set_takeD)
      then show "isJSON b
            \<and> (\<exists>ps. getProp b ''data'' = Inr (JArr (map (\<lambda>p. jsonClone (toJSON p)) ps))
                   \<and> noDuplicates ps \<and> stringContacts ps)"
      proof
        assume "b = b0"
        with b0 ps show ?thesis by blast
      next
        assume "b \<in> set bs"
        with all show ?thesis by blast
      qed
    qed
    with b0(1) show ?thesis unfolding cleanHistory_def by blast
  qed
qed

lemma savePersons_cleanState:
  assumes "noDuplicates (getPersons s)" "stringContacts (getPersons s)" "cleanHistory s"
    and sv: "savePersons e s = (r, s')"
  shows "cleanState s'"
proof -
  let ?d = "JArr (map toJSON (getPersons s))"
  let ?a = "autoBackup e ?d s"
  have "?a = s \<or> ?a = snd (createBackup e ?d s)"
    by (auto simp: autoBackup_def split: sum.splits)
  then have ha: "cleanHistory ?a"
  proof
    assume "?a = s"
    with assms(3) show ?thesis by simp
  next
    assume a: "?a = snd (createBackup e ?d s)"
    have "createBackup e ?d s = (fst (createBackup e ?d s), snd (createBackup e ?d s))"
      by simp
    from createBackup_cleanHistory [OF assms(3) assms(1,2) this] a
    show ?thesis by simp
  qed
  have "s' = ?a \<or> storeJSON storageKey ?d ?a = Inr s'"
    using sv by (auto simp: savePersons_def Let_def split: sum.splits if_splits)
  then have "getBackups s' = getBackups ?a"
  proof
    assume "s' = ?a"
    then show ?thesis by simp
  next
    assume "storeJSON storageKey ?d ?a = Inr s'"
    then have "setItem storageKey (Json (jsonClone ?d)) ?a = Inr s'"
      by (simp add: storeJSON_def)
    from setItem_frame(6) [OF this, of backupKey] keys_differ
    have "getItem backupKey s' = getItem backupKey ?a" by simp
    then show ?thesis by (rule getBackups_cong)
  qed
  from cleanHistory_cong [OF this] ha have "cleanHistory s'" by simp
  with savePersons_frame(5) [OF sv] assms(1,2) show ?thesis by (simp add: cleanState_def)
qed

subsection \<open>What each operation does to the collection\<close>

lemma setPersons_history: "cleanHistory (setPersons ps s) = cleanHistory s"
  by (rule cleanHistory_cong) (simp add: getBackups_def setPersons_items)

lemma validate_strings:
  assumes "isValid (validate today p)"
  shows "isString (email p)" "isString (telefone p)"
proof -
  from assms have "validateEmail (email p)" "validatePhone (telefone p)"
    by (auto simp: validate_def Let_def split: if_splits)
  then show "isString (email p)" "isString (telefone p)"
    by (auto simp: validateEmail_def validatePhone_def split: if_splits)
qed

lemma addPerson_cases:
  assumes "addPerson e a s = (r, s')"
  shows "s' = s
       \<or> (\<exists>p r0. a = Instance p \<and> isValid (validate (now e) p) \<and> \<not> isDuplicate p (- 1) s
              \<and> savePersons e (setPersons (getPersons s @ [p]) s) = (r0, s'))"
proof (cases a)
  case (Other v)
  with assms show ?thesis by (auto simp: addPerson_def)
next
  case (Instance p)
  show ?thesis
  proof (cases "isValid (validate (now e) p) \<and> \<not> isDuplicate p (- 1) s")
    case False
    with assms Instance show ?thesis
      by (auto simp: addPerson_def Let_def split: if_splits)
  next
    case True
    with assms Instance obtain r0 where
      "savePersons e (setPersons (getPersons s @ [p]) s) = (r0, s')"
      by (auto simp: addPerson_def Let_def split: prod.splits sum.splits)
    with Instance True show ?thesis by blast
  qed
qed

lemma updatePerson_cases:
  assumes "updatePerson e i a s = (r, s')"
  shows "s' = s
       \<or> (\<exists>p r0. a = Instance p \<and> 0 \<le> i \<and> i < int (length (getPersons s))
              \<and> isValid (validate (now e) p) \<and> \<not> isDuplicate p i s
              \<and> savePersons e (setPersons ((getPersons s)
                    [nat i := p \<lparr> personId := personId (getPersons s ! nat i),
                                   createdAt := createdAt (getPersons s ! nat i),
                                   updatedAt := Some (now e) \<rparr>]) s) = (r0, s'))"
proof (cases "i < 0 \<or> i \<ge> int (length (getPersons s))")
  case True
  with assms show ?thesis by (auto simp: updatePerson_def)
next
  case range: False
  show ?thesis
  proof (cases a)
    case (Other v)
    with assms range show ?thesis by (auto simp: updatePerson_def)
  next
    case (Instance p)
    show ?thesis
    proof (cases "isValid (validate (now e) p) \<and> \<not> isDuplicate p i s")
      case False
      with assms Instance range show ?thesis
        by (auto simp: updatePerson_def Let_def split: if_splits)
    next
      case True
      with assms Instance range obtain r0 where
        "savePersons e (setPersons ((getPersons s)
                    [nat i := p \<lparr> personId := personId (getPersons s ! nat i),
                                   createdAt := createdAt (getPersons s ! nat i),
                                   updatedAt := Some (now e) \<rparr>]) s) = (r0, s')"
        by (auto simp: updatePerson_def Let_def split: prod.splits sum.splits)
      with Instance True range show ?thesis by fastforce
    qed
  qed
qed

lemma deletePerson_cases:
  assumes "deletePerson e i s = (r, s')"
  shows "s' = s
       \<or> (\<exists>r0. savePersons e (setPersons (take (nat i) (getPersons s)
                                            @ drop (nat i + 1) (getPersons s)) s) = (r0, s'))"
proof (cases "i < 0 \<or> i \<ge> int (length (getPersons s))")
  case True
  with assms show ?thesis by (auto simp: deletePerson_def)
next
  case False
  with assms show ?thesis
    by (auto simp: deletePerson_def Let_def split: prod.splits sum.splits)
qed

lemma findBackup_mem: "findBackup bs k = Inr (Some b) \<Longrightarrow> b \<in> set bs"
  by (induction bs) (auto split: sum.splits if_splits)

lemma restoreBackup_from_history:
  assumes "restoreBackup bid s = Inr d"
  shows "\<exists>bs b. getBackups s = JArr bs \<and> b \<in> set bs \<and> getProp b ''data'' = Inr d"
proof -
  from assms obtain bs where bs: "getBackups s = JArr bs"
    by (cases "getBackups s") (auto simp: restoreBackup_def Let_def rethrow_def)
  from assms bs obtain b where b: "findBackup bs bid = Inr (Some b)"
    by (cases "findBackup bs bid")
       (auto simp: restoreBackup_def Let_def rethrow_def split: option.splits)
  from assms bs b have "getProp b ''data'' = Inr d"
    by (auto simp: restoreBackup_def Let_def rethrow_def split: if_splits sum.splits)
  with bs findBackup_mem [OF b] show ?thesis by blast
qed

lemma restoreFromBackup_cases:
  assumes "restoreFromBackup fresh e bid s = (r, s')"
  shows "s' = s
       \<or> (\<exists>ds ps r0. restoreBackup bid s = Inr (JArr ds) \<and> mapFromJSON fresh 0 ds = Inr ps
              \<and> savePersons e (snd (newArray ps s) \<lparr> persons := fst (newArray ps s) \<rparr>)
                   = (r0, s'))"
  using assms
  by (auto simp: restoreFromBackup_def split: sum.splits jsval.splits prod.splits)

subsection \<open>The invariant\<close>

lemma addPerson_cleanState:
  assumes c: "cleanState s" and a: "addPerson e a s = (r, s')"
  shows "cleanState s'"
proof -
  from addPerson_cases [OF a] show ?thesis
  proof
    assume "s' = s" with c show ?thesis by simp
  next
    assume "\<exists>p r0. a = Instance p \<and> isValid (validate (now e) p) \<and> \<not> isDuplicate p (- 1) s
              \<and> savePersons e (setPersons (getPersons s @ [p]) s) = (r0, s')"
    then obtain p r0 where v: "isValid (validate (now e) p)"
      and d: "\<not> isDuplicate p (- 1) s"
      and sv: "savePersons e (setPersons (getPersons s @ [p]) s) = (r0, s')" by blast
    from d have "\<forall>q\<in>set (getPersons s). \<not> sameContact q p" by (simp add: isDuplicate_any)
    with c have nd: "noDuplicates (getPersons s @ [p])"
      by (simp add: cleanState_def noDuplicates_add)
    from c validate_strings [OF v] have sc: "stringContacts (getPersons s @ [p])"
      by (simp add: cleanState_def stringContacts_def)
    from c have h: "cleanHistory (setPersons (getPersons s @ [p]) s)"
      by (simp add: cleanState_def setPersons_history)
    from nd sc h sv show ?thesis
      by (intro savePersons_cleanState [OF _ _ _ sv]) (simp_all add: getPersons_setPersons)
  qed
qed

lemma stringContacts_update:
  "stringContacts ps \<Longrightarrow> isString (email p) \<Longrightarrow> isString (telefone p)
     \<Longrightarrow> stringContacts (ps[n := p])"
  by (auto simp: stringContacts_def list_all_iff dest!: set_update_subset_insert [THEN subsetD])

lemma updatePerson_cleanState:
  assumes c: "cleanState s" and a: "updatePerson e i a s = (r, s')"
  shows "cleanState s'"
proof -
  from updatePerson_cases [OF a] show ?thesis
  proof
    assume "s' = s" with c show ?thesis by simp
  next
    assume "\<exists>p r0. a = Instance p \<and> 0 \<le> i \<and> i < int (length (getPersons s))
              \<and> isValid (validate (now e) p) \<and> \<not> isDuplicate p i s
              \<and> savePersons e (setPersons ((getPersons s)
                    [nat i := p \<lparr> personId := personId (getPersons s ! nat i),
                                   createdAt := createdAt (getPersons s ! nat i),
                                   updatedAt := Some (now e) \<rparr>]) s) = (r0, s')"
    then obtain p r0 where i: "0 \<le> i" "i < int (length (getPersons s))"
      and v: "isValid (validate (now e) p)"
      and d: "\<not> isDuplicate p i s"
      and sv: "savePersons e (setPersons ((getPersons s)
                    [nat i := p \<lparr> personId := personId (getPersons s ! nat i),
                                   createdAt := createdAt (getPersons s ! nat i),
                                   updatedAt := Some (now e) \<rparr>]) s) = (r0, s')" by blast
    let ?p = "p \<lparr> personId := personId (getPersons s ! nat i),
                   createdAt := createdAt (getPersons s ! nat i),
                   updatedAt := Some (now e) \<rparr>"
    let ?ps = "(getPersons s)[nat i := ?p]"
    from i have n: "nat i < length (getPersons s)" by simp
    from d i have o: "\<forall>j < length (getPersons s). j \<noteq> nat i \<longrightarrow> \<not> sameContact (getPersons s ! j) p"
      by (auto simp: isDuplicate_iff)
    from c have nd0: "noDuplicates (getPersons s)" by (simp add: cleanState_def)
    have nd: "noDuplicates ?ps"
      by (rule noDuplicates_update [OF nd0 n o]) simp_all
    from c validate_strings [OF v] have sc: "stringContacts ?ps"
      by (intro stringContacts_update) (simp_all add: cleanState_def)
    from c have h: "cleanHistory (setPersons ?ps s)"
      by (simp add: cleanState_def setPersons_history)
    from nd sc h show ?thesis
      by (intro savePersons_cleanState [OF _ _ _ sv]) (simp_all add: getPersons_setPersons)
  qed
qed

lemma stringContacts_delete:
  "stringContacts ps \<Longrightarrow> stringContacts (take n ps @ drop (Suc n) ps)"
  by (auto simp: stringContacts_def list_all_iff dest: in_set_takeD in_set_dropD)

lemma deletePerson_cleanState:
  assumes c: "cleanState s" and a: "deletePerson e i s = (r, s')"
  shows "cleanState s'"
proof -
  from deletePerson_cases [OF a] show ?thesis
  proof
    assume "s' = s" with c show ?thesis by simp
  next
    let ?ps = "take (nat i) (getPersons s) @ drop (nat i + 1) (getPersons s)"
    assume "\<exists>r0. savePersons e (setPersons ?ps s) = (r0, s')"
    then obtain r0 where sv: "savePersons e (setPersons ?ps s) = (r0, s')" by blast
    from c have nd: "noDuplicates ?ps" by (simp only: cleanState_def noDuplicates_delete)
    from c have sc: "stringContacts ?ps" by (simp add: cleanState_def stringContacts_delete)
    from c have h: "cleanHistory (setPersons ?ps s)"
      by (simp add: cleanState_def setPersons_history)
    from nd sc h show ?thesis
      by (intro savePersons_cleanState [OF _ _ _ sv]) (simp_all add: getPersons_setPersons)
  qed
qed

lemma getPersons_newArray:
  "getPersons (snd (newArray ps s) \<lparr> persons := fst (newArray ps s) \<rparr>) = ps"
  by (simp add: getPersons_def newArray_def)

lemma newArray_history:
  "cleanHistory (snd (newArray ps s) \<lparr> persons := fst (newArray ps s) \<rparr>) = cleanHistory s"
  by (rule cleanHistory_cong) (simp add: getBackups_def getItem_def newArray_def)

lemma restoreFromBackup_cleanState:
  assumes c: "cleanState s" and a: "restoreFromBackup fresh e bid s = (r, s')"
  shows "cleanState s'"
proof -
  from restoreFromBackup_cases [OF a] show ?thesis
  proof
    assume "s' = s" with c show ?thesis by simp
  next
    assume "\<exists>ds ps r0. restoreBackup bid s = Inr (JArr ds) \<and> mapFromJSON fresh 0 ds = Inr ps
              \<and> savePersons e (snd (newArray ps s) \<lparr> persons := fst (newArray ps s) \<rparr>)
                   = (r0, s')"
    then obtain ds ps r0 where rb: "restoreBackup bid s = Inr (JArr ds)"
      and m: "mapFromJSON fresh 0 ds = Inr ps"
      and sv: "savePersons e (snd (newArray ps s) \<lparr> persons := fst (newArray ps s) \<rparr>) = (r0, s')"
      by blast
    from restoreBackup_from_history [OF rb] obtain bs b where
      b: "getBackups s = JArr bs" "b \<in> set bs" "getProp b ''data'' = Inr (JArr ds)" by blast
    from c b(1) have "\<forall>b\<in>set bs. \<exists>ps. getProp b ''data''
                         = Inr (JArr (map (\<lambda>p. jsonClone (toJSON p)) ps))
                       \<and> noDuplicates ps \<and> stringContacts ps"
      by (auto simp: cleanState_def cleanHistory_def)
    with b(2) obtain qs where
      "getProp b ''data'' = Inr (JArr (map (\<lambda>p. jsonClone (toJSON p)) qs))"
      and qs23: "noDuplicates qs" "stringContacts qs" by blast
    with b(3) have qs1: "ds = map (\<lambda>p. jsonClone (toJSON p)) qs" by simp
    note qs = qs1 qs23
    from mapFromJSON_clone_sameFields [OF qs(3) m [unfolded qs(1)]]
    have sf: "list_all2 sameFields ps qs" .
    from qs(2) noDuplicates_sameFields [OF sf] have nd: "noDuplicates ps" by simp
    from qs(3) stringContacts_sameFields [OF sf] have sc: "stringContacts ps" by simp
    from c have h: "cleanHistory (snd (newArray ps s) \<lparr> persons := fst (newArray ps s) \<rparr>)"
      by (simp add: cleanState_def newArray_history)
    from nd sc h show ?thesis
      by (intro savePersons_cleanState [OF _ _ _ sv]) (simp_all add: getPersons_newArray)
  qed
qed

lemma emptyHistory_cleanState:
  assumes "getPersons s = []" "getItem backupKey s = None"
  shows "cleanState s"
  using assms by (simp add: cleanState_def stringContacts_def cleanHistory_def getBackups_def)

lemma reachable_cleanState:
  assumes "reachable s0 s" "cleanState s0"
  shows "cleanState s"
  using assms
proof (induction rule: reachable.induct)
  case start
  then show ?case by simp
next
  case (added s e a r s')
  from addPerson_cleanState [OF added.IH [OF added.prems] added.hyps(2)] show ?case .
next
  case (updated s e i a r s')
  from updatePerson_cleanState [OF updated.IH [OF updated.prems] updated.hyps(2)] show ?case .
next
  case (deleted s e i r s')
  from deletePerson_cleanState [OF deleted.IH [OF deleted.prems] deleted.hyps(2)] show ?case .
next
  case (restored s fresh e backupId r s')
  from restoreFromBackup_cleanState [OF restored.IH [OF restored.prems] restored.hyps(2)]
  show ?case .
qed

lemma reachable_noDuplicates:
  assumes "reachable s0 s" "cleanState s0"
  shows "noDuplicates (getPersons s)"
  using reachable_cleanState [OF assms] by (simp add: cleanState_def)

lemma addPerson_duplicate:
  assumes "isValid (validate (now e) p)" "isDuplicate p (- 1) s"
  shows "addPerson e (Instance p) s = (Inl (AppError AlreadyRegistered DUPLICATE_ERROR None), s)"
  using assms by (simp add: addPerson_def Let_def rethrow_def)

lemma updatePerson_duplicate:
  assumes "0 \<le> i" "i < int (length (getPersons s))" "isValid (validate (now e) p)"
    "isDuplicate p i s"
  shows "updatePerson e i (Instance p) s
           = (Inl (AppError AlreadyRegistered DUPLICATE_ERROR None), s)"
  using assms by (simp add: updatePerson_def Let_def rethrow_def)

text \<open>
  Claim C2, as amended. In every state that the manager reaches through \<open>addPerson\<close>,
  \<open>updatePerson\<close>, \<open>deletePerson\<close> and \<open>restoreFromBackup\<close>, no two records at different
  places share an email or a phone, provided that in the first state the collection has no
  duplicates, its emails and phones are strings, and every snapshot of the stored history
  was taken of such a collection; the page with no record and no stored history is such a
  state. \<open>isDuplicate\<close> finds a record with the email or the phone of its argument, at any
  index other than the excluded one; \<open>addPerson\<close> rejects a valid record that
  \<open>isDuplicate\<close> finds among all records, and \<open>updatePerson\<close> one that it finds at another
  index than the updated one, both with a duplicate error and no change of state.
\<close>

theorem contacts_stay_unique:
  "(cleanState s0 \<and> reachable s0 s \<longrightarrow> noDuplicates (getPersons s))
   \<and> (getPersons s0 = [] \<and> getItem backupKey s0 = None \<longrightarrow> cleanState s0)
   \<and> (isDuplicate p (- 1) s \<longleftrightarrow> (\<exists>q\<in>set (getPersons s). sameContact q p))
   \<and> (isDuplicate p i s \<longleftrightarrow>
         (\<exists>j < length (getPersons s). int j \<noteq> i \<and> sameContact (getPersons s ! j) p))
   \<and> (isValid (validate (now e) p) \<and> isDuplicate p (- 1) s \<longrightarrow>
         addPerson e (Instance p) s = (Inl (AppError AlreadyRegistered DUPLICATE_ERROR None), s))
   \<and> (0 \<le> i \<and> i < int (length (getPersons s)) \<and> isValid (validate (now e) p)
         \<and> isDuplicate p i s \<longrightarrow>
         updatePerson e i (Instance p) s
           = (Inl (AppError AlreadyRegistered DUPLICATE_ERROR None), s))"
  using reachable_noDuplicates [of s0 s] emptyHistory_cleanState [of s0]
        isDuplicate_any [of p s] isDuplicate_iff [of p i s]
        addPerson_duplicate [of e p s] updatePerson_duplicate [of i s e p]
  by blast

text \<open>
  On the page with no record and no stored history, \<open>ana\<close> is added and the snapshot that
  this took is restored; then \<open>bia\<close>, who has the email of \<open>ana\<close>, is refused.
\<close>

theorem contacts_stay_unique_witness:
  "getPersons (emptyPage 5000000) = []
   \<and> getItem backupKey (emptyPage 5000000) = None
   \<and> getPersons (snd (addPerson clock0 (Instance ana) (emptyPage 5000000))) = [ana]
   \<and> fst (restoreFromBackup (\<lambda>n. clock1) clock1 ''backup_1793664000000_k3x9q0a1z''
            (snd (addPerson clock0 (Instance ana) (emptyPage 5000000)))) = Inr True
   \<and> noDuplicates (getPersons
         (snd (restoreFromBackup (\<lambda>n. clock1) clock1 ''backup_1793664000000_k3x9q0a1z''
                (snd (addPerson clock0 (Instance ana) (emptyPage 5000000))))))
   \<and> addPerson clock1 (Instance bia) (snd (addPerson clock0 (Instance ana) (emptyPage 5000000)))
       = (Inl (AppError AlreadyRegistered DUPLICATE_ERROR None),
          snd (addPerson clock0 (Instance ana) (emptyPage 5000000)))"
proof -
  let ?s0 = "emptyPage 5000000"
  let ?s1 = "snd (addPerson clock0 (Instance ana) ?s0)"
  let ?r = "restoreFromBackup (\<lambda>n. clock1) clock1 ''backup_1793664000000_k3x9q0a1z'' ?s1"
  have "addPerson clock0 (Instance ana) ?s0 = (fst (addPerson clock0 (Instance ana) ?s0), ?s1)"
    by simp
  from reachable.added [OF reachable.start this] have r1: "reachable ?s0 ?s1" .
  have "?r = (fst ?r, snd ?r)" by simp
  from reachable.restored [OF r1 this] have r2: "reachable ?s0 (snd ?r)" .
  have e: "getPersons ?s0 = []" "getItem backupKey ?s0 = None" by code_simp+
  have g: "getPersons ?s1 = [ana]" by code_simp
  have ok: "fst ?r = Inr True" by code_simp
  have v: "isValid (validate (now clock1) bia)" by code_simp
  have "sameContact ana bia" by code_simp
  with g have d: "\<exists>q\<in>set (getPersons ?s1). sameContact q bia" by simp
  from contacts_stay_unique [of ?s0 ?s0 bia "- 1" clock1] e
  have c0: "cleanState ?s0" by blast
  from contacts_stay_unique [of ?s0 "snd ?r" bia "- 1" clock1] c0 r2
  have n: "noDuplicates (getPersons (snd ?r))" by blast
  from contacts_stay_unique [of ?s0 ?s1 bia "- 1" clock1] v d
  have a: "addPerson clock1 (Instance bia) ?s1
             = (Inl (AppError AlreadyRegistered DUPLICATE_ERROR None), ?s1)" by blast
  from e g ok n a show ?thesis by blast
qed

text \<open>
  The claim as it is written fails: \<open>replaceAllData\<close> installs the array it is given
  without a look at the contacts. From the empty collection it reaches a collection whose
  two records have the same email.
\<close>

theorem replaceAllData_installs_duplicates:
  "getPersons (pageWithArray 5000000 [ana, bia]) = []
   \<and> fst (replaceAllData clock0 clock1 1 (pageWithArray 5000000 [ana, bia])) = Inr True
   \<and> getPersons (snd (replaceAllData clock0 clock1 1 (pageWithArray 5000000 [ana, bia])))
       = [ana, bia]
   \<and> email ana = email bia
   \<and> \<not> noDuplicates [ana, bia]"
  by code_simp


end
